theory Spec2Isabelle
  imports Complex_Main "HOL-Library.Char_ord" "HOL-Library.List_Lexorder"
begin

section \<open>Strings of the JavaScript runtime\<close>

text \<open>
  A JavaScript string is a sequence of UTF-16 code units. A \<^typ>\<open>char\<close> here is a code
  unit in the range U+0000 to U+00FF (ASCII and Latin-1); \<^typ>\<open>string\<close> is the list of
  them. \<open>String.prototype.toLowerCase\<close> maps, in that range, \<open>A\<close>..\<open>Z\<close> and
  U+00C0..U+00DE (but not the multiplication sign U+00D7) to the code unit 32 above, and
  leaves every other code unit alone.
\<close>

definition lowerChar :: "char \<Rightarrow> char" where
  "lowerChar c =
     (let n = (of_char c :: nat)
      in if (65 \<le> n \<and> n \<le> 90) \<or> (192 \<le> n \<and> n \<le> 222 \<and> n \<noteq> 215)
         then char_of (n + 32) else c)"

definition toLowerCase :: "string \<Rightarrow> string" where
  "toLowerCase s = map lowerChar s"

text \<open>\<open>s.substring(0, n)\<close>: the first \<open>n\<close> code units, or all of \<open>s\<close> when it is shorter.\<close>

definition substring0 :: "nat \<Rightarrow> string \<Rightarrow> string" where
  "substring0 n s = take n s"

section \<open>The match engine (backend/matching.js)\<close>

text \<open>
  The records follow the interfaces \<open>UserInfo\<close> and \<open>Resource\<close> of frontend/src/App.tsx.
  Fields that both records have, or whose name is a constant of HOL, carry a suffix.
  \<open>preferredLanguage\<close> is optional on the server (the destructuring default of
  \<open>matchResources\<close>), and \<open>eligibilityTags\<close> and \<open>languagesSupported\<close> may be absent
  (the code tests \<open>!resource.eligibilityTags\<close>): \<open>None\<close> is the absent field.
\<close>

record UserInfo =
  zip_u :: string
  ageRange :: string
  incomeBracket :: string
  householdSize :: int
  primaryNeed :: string
  preferredLanguage :: "string option"

record Resource =
  id_r :: rat
  name :: string
  category :: string
  address :: string
  zip_r :: string
  hours :: string
  phone :: string
  website :: string
  eligibilityNotes :: string
  eligibilityTags :: "string list option"
  languagesSupported :: "string list option"

text \<open>A match result is the resource spread into a new object with a \<open>distance\<close>.\<close>

record MatchResult = Resource +
  distance :: int

definition withDistance :: "Resource \<Rightarrow> int \<Rightarrow> MatchResult" where
  "withDistance r d = Resource.extend r (MatchResult.fields d)"

subsection \<open>Numbers of the runtime\<close>

text \<open>
  A JavaScript number is an IEEE 754 double. A finite double that is not negative is
  \<open>mantissa * 2 ^ exponent\<close> for an integer mantissa of at most 53 bits; each one has
  such a representation with an exponent from -1074 to 971, and the arithmetic below
  looks only at the value.
\<close>

record double =
  mantissa :: int
  exponent :: int

definition isDouble :: "double \<Rightarrow> bool" where
  "isDouble d =
     (0 \<le> mantissa d \<and> mantissa d < 2 ^ 53 \<and> - 1074 \<le> exponent d \<and> exponent d \<le> 971)"

definition doubleValue :: "double \<Rightarrow> rat" where
  "doubleValue d =
     (if 0 \<le> exponent d then of_int (mantissa d) * 2 ^ nat (exponent d)
      else of_int (mantissa d) / 2 ^ nat (- exponent d))"

text \<open>
  \<open>x * c\<close> for a double \<open>x\<close> and a small whole number \<open>c\<close> (5 and 10 in the code) is the
  exact product rounded to the nearest double, ties to the even mantissa. The exact
  product has the mantissa \<open>c * mantissa x\<close>; \<open>excessBits\<close> counts the bits it has beyond
  53, and \<open>roundShift\<close> drops that many low bits with the rounding. (No product of the
  code overflows: its doubles are below 1.)
\<close>

function excessBits :: "int \<Rightarrow> nat" where
  "excessBits n = (if n < 2 ^ 53 then 0 else Suc (excessBits (n div 2)))"
  by pat_completeness auto
termination
  by (relation "measure nat") auto

definition roundShift :: "int \<Rightarrow> nat \<Rightarrow> int" where
  "roundShift n s =
     (let q = n div 2 ^ s; r = n mod 2 ^ s
      in if 2 * r < 2 ^ s then q
         else if 2 ^ s < 2 * r then q + 1
         else if even q then q else q + 1)"

definition multiplyBy :: "int \<Rightarrow> double \<Rightarrow> double" where
  "multiplyBy c d =
     (let n = c * mantissa d; s = excessBits n
      in \<lparr>mantissa = roundShift n s, exponent = exponent d + int s\<rparr>)"

text \<open>\<open>Math.floor\<close>; adding 1 or 5 to its small whole result is exact.\<close>

definition mathFloor :: "double \<Rightarrow> int" where
  "mathFloor d = \<lfloor>doubleValue d\<rfloor>"

subsection \<open>calculateDistance\<close>

text \<open>
  \<open>Math.random()\<close> is the only source of nondeterminism. The sequence of doubles it
  returns is a parameter \<open>rnd\<close>, and the state is the number \<open>k\<close> of draws made so far:
  a function that may draw takes \<open>k\<close> and returns the new count with its result.
  The runtime promises a double with \<open>0 \<le> rnd k < 1\<close>.
\<close>

type_synonym random_source = "nat \<Rightarrow> double"

definition unitInterval :: "random_source \<Rightarrow> bool" where
  "unitInterval rnd = (\<forall>k. isDouble (rnd k) \<and> doubleValue (rnd k) < 1)"

definition calculateDistance :: "random_source \<Rightarrow> nat \<Rightarrow> string \<Rightarrow> string \<Rightarrow> int \<times> nat" where
  "calculateDistance rnd k zip1 zip2 =
     (if zip1 = zip2 then (0, k)
      else let zip1Prefix = substring0 3 zip1; zip2Prefix = substring0 3 zip2
           in if zip1Prefix = zip2Prefix
              then (mathFloor (multiplyBy 5 (rnd k)) + 1, Suc k)
              else (mathFloor (multiplyBy 10 (rnd k)) + 5, Suc k))"

subsection \<open>matchesEligibility\<close>

text \<open>The local array \<open>userTags\<close>, filled by up to three pushes in this order.\<close>

definition userTags :: "UserInfo \<Rightarrow> string list" where
  "userTags userInfo =
     (if incomeBracket userInfo = ''low'' \<or> incomeBracket userInfo = ''very_low''
      then [''low_income''] else [])
     @ (if ageRange userInfo = ''65+'' then [''senior''] else [])
     @ (if householdSize userInfo > 1 then [''parent''] else [])"

definition matchesEligibility :: "Resource \<Rightarrow> UserInfo \<Rightarrow> bool" where
  "matchesEligibility resource userInfo =
     (case eligibilityTags resource of
        None \<Rightarrow> True
      | Some tags \<Rightarrow>
          if length tags = 0 then True
          else if length tags > 0 \<and> length (userTags userInfo) > 0
               then list_ex (\<lambda>tag. tag \<in> set (userTags userInfo)) tags
               else True)"

subsection \<open>supportsLanguage\<close>

definition supportsLanguage :: "Resource \<Rightarrow> string \<Rightarrow> bool" where
  "supportsLanguage resource preferred =
     (case languagesSupported resource of
        None \<Rightarrow> True
      | Some langs \<Rightarrow>
          if length langs = 0 then True
          else list_ex (\<lambda>lang. toLowerCase lang = toLowerCase preferred) langs)"

subsection \<open>matchResources\<close>

text \<open>
  The comparison function handed to \<open>Array.prototype.sort\<close>. The collation of
  \<open>String.prototype.localeCompare\<close> belongs to the runtime (its Intl implementation
  and default locale), not to this repository: it is the parameter \<open>localeCompare\<close>,
  negative, zero or positive as the first name sorts before, with or after the second.
\<close>

type_synonym collation = "string \<Rightarrow> string \<Rightarrow> int"

definition compareMatches :: "collation \<Rightarrow> MatchResult \<Rightarrow> MatchResult \<Rightarrow> int" where
  "compareMatches localeCompare a b =
     (if distance a \<noteq> distance b then distance a - distance b
      else localeCompare (name a) (name b))"

text \<open>
  A collation is a consistent comparison function, in the sense of ECMAScript, when
  swapping the arguments swaps the sign of the result and the order it gives is
  transitive. For a consistent comparison function ECMAScript fixes the result of
  \<open>sort\<close>: the sorted permutation in which elements that compare equal keep their
  order (the sort is stable). Insertion from the right computes it: an element is put
  in front of the first element of the sorted rest that it does not sort after.
\<close>

definition consistentCollation :: "collation \<Rightarrow> bool" where
  "consistentCollation localeCompare =
     ((\<forall>a b. sgn (localeCompare b a) = - sgn (localeCompare a b)) \<and>
      (\<forall>a b c. localeCompare a b \<le> 0 \<and> localeCompare b c \<le> 0 \<longrightarrow> localeCompare a c \<le> 0))"

fun insertSorted :: "('a \<Rightarrow> 'a \<Rightarrow> int) \<Rightarrow> 'a \<Rightarrow> 'a list \<Rightarrow> 'a list" where
  "insertSorted cmp x [] = [x]"
| "insertSorted cmp x (y # ys) =
     (if cmp x y \<le> 0 then x # y # ys else y # insertSorted cmp x ys)"

definition arraySort :: "('a \<Rightarrow> 'a \<Rightarrow> int) \<Rightarrow> 'a list \<Rightarrow> 'a list" where
  "arraySort cmp xs = foldr (insertSorted cmp) xs []"

text \<open>The destructuring default \<open>preferredLanguage = 'English'\<close>.\<close>

definition preferredLanguageOf :: "UserInfo \<Rightarrow> string" where
  "preferredLanguageOf userInfo =
     (case preferredLanguage userInfo of None \<Rightarrow> ''English'' | Some l \<Rightarrow> l)"

text \<open>Step 1, the variable \<open>matches\<close> after the category filter.\<close>

definition matchesByCategory :: "Resource list \<Rightarrow> UserInfo \<Rightarrow> Resource list" where
  "matchesByCategory resources userInfo =
     filter (\<lambda>resource. category resource = primaryNeed userInfo) resources"

text \<open>Step 2, the variable \<open>matches\<close> after the eligibility filter.\<close>

definition matches :: "Resource list \<Rightarrow> UserInfo \<Rightarrow> Resource list" where
  "matches resources userInfo =
     filter (\<lambda>resource. matchesEligibility resource userInfo)
       (matchesByCategory resources userInfo)"

text \<open>Step 3, \<open>languageMatches\<close> and \<open>prioritizedMatches\<close>.\<close>

definition languageMatches :: "Resource list \<Rightarrow> UserInfo \<Rightarrow> Resource list" where
  "languageMatches resources userInfo =
     filter (\<lambda>resource. supportsLanguage resource (preferredLanguageOf userInfo))
       (matches resources userInfo)"

definition prioritizedMatches :: "Resource list \<Rightarrow> UserInfo \<Rightarrow> Resource list" where
  "prioritizedMatches resources userInfo =
     (if length (languageMatches resources userInfo) > 0
      then languageMatches resources userInfo
      else matches resources userInfo)"

text \<open>
  Step 4, \<open>matchesWithDistance\<close>: the \<open>map\<close> visits the resources in order, and each
  call of \<open>calculateDistance\<close> continues from the draws of the one before.
\<close>

fun matchesWithDistance ::
  "random_source \<Rightarrow> nat \<Rightarrow> string \<Rightarrow> Resource list \<Rightarrow> MatchResult list \<times> nat" where
  "matchesWithDistance rnd k z [] = ([], k)"
| "matchesWithDistance rnd k z (resource # rest) =
     (let (d, k1) = calculateDistance rnd k z (zip_r resource);
          (ms, k2) = matchesWithDistance rnd k1 z rest
      in (withDistance resource d # ms, k2))"

text \<open>Sort, then \<open>slice(0, 5)\<close>. The result is the list with the new count of draws.\<close>

definition matchResources ::
  "collation \<Rightarrow> random_source \<Rightarrow> nat \<Rightarrow> Resource list \<Rightarrow> UserInfo \<Rightarrow> MatchResult list \<times> nat" where
  "matchResources localeCompare rnd k resources userInfo =
     (let (ms, k1) = matchesWithDistance rnd k (zip_u userInfo)
                       (prioritizedMatches resources userInfo)
      in (take 5 (arraySort (compareMatches localeCompare) ms), k1))"

section \<open>The resource normalizer (backend/resourceService.js)\<close>

subsection \<open>JavaScript values\<close>

text \<open>
  A raw record comes out of \<open>JSON.parse\<close> or \<open>response.json()\<close>: its fields hold
  arbitrary JSON. \<open>JUndefined\<close> is what reading a missing property gives. \<open>JBuiltin\<close>
  stands for an object or function of the runtime itself, which no JSON text denotes
  and which only a property inherited from \<open>Object.prototype\<close> can deliver. An object
  is the association list of its own properties (the first binding of a key counts).
  Numbers are rationals: the code only tests them for zero and stores them.
\<close>

datatype jsval =
    JUndefined
  | JNull
  | JBool bool
  | JNum rat
  | JStr string
  | JArr "jsval list"
  | JObj "(string \<times> jsval) list"
  | JBuiltin string

datatype error = TypeError | Error string

fun truthy :: "jsval \<Rightarrow> bool" where
  "truthy JUndefined = False"
| "truthy JNull = False"
| "truthy (JBool b) = b"
| "truthy (JNum n) = (n \<noteq> 0)"
| "truthy (JStr s) = (s \<noteq> [])"
| "truthy (JArr xs) = True"
| "truthy (JObj kvs) = True"
| "truthy (JBuiltin b) = True"

text \<open>\<open>a || b\<close>: the first operand when it is truthy, else the second.\<close>

definition jsOr :: "jsval \<Rightarrow> jsval \<Rightarrow> jsval" where
  "jsOr a b = (if truthy a then a else b)"

text \<open>
  What a plain object inherits: the twelve properties of \<open>Object.prototype\<close>, namely
  \<open>constructor\<close>, the accessor \<open>__proto__\<close> and ten methods.
\<close>

definition objectPrototypeMethods :: "string list" where
  "objectPrototypeMethods =
     [''__defineGetter__'', ''__defineSetter__'', ''hasOwnProperty'', ''__lookupGetter__'',
      ''__lookupSetter__'', ''isPrototypeOf'', ''propertyIsEnumerable'', ''toString'',
      ''valueOf'', ''toLocaleString'']"

definition objectPrototype :: "string \<Rightarrow> jsval" where
  "objectPrototype key =
     (if key = ''constructor'' then JBuiltin ''Object''
      else if key = ''__proto__'' then JBuiltin ''Object.prototype''
      else if key \<in> set objectPrototypeMethods then JBuiltin (''Object.prototype.'' @ key)
      else JUndefined)"

text \<open>
  \<open>v.key\<close> and \<open>v[key]\<close> for a \<open>v\<close> that is neither \<open>null\<close> nor \<open>undefined\<close>: an own
  property, else the inherited one. Of the other values the code reads data fields
  only (never \<open>length\<close> or a method), and they have none.
\<close>

fun getProp :: "jsval \<Rightarrow> string \<Rightarrow> jsval" where
  "getProp (JObj kvs) key = (case map_of kvs key of Some v \<Rightarrow> v | None \<Rightarrow> objectPrototype key)"
| "getProp v key = JUndefined"

text \<open>\<open>v?.key\<close>: \<open>undefined\<close> when \<open>v\<close> is \<open>null\<close> or \<open>undefined\<close>.\<close>

definition optionalProp :: "jsval \<Rightarrow> string \<Rightarrow> jsval" where
  "optionalProp v key = (if v = JUndefined \<or> v = JNull then JUndefined else getProp v key)"

subsection \<open>mapCategory\<close>

definition categoryMap :: "(string \<times> jsval) list" where
  "categoryMap =
     [(''food'', JStr ''food''),
      (''food assistance'', JStr ''food''),
      (''food bank'', JStr ''food''),
      (''meal'', JStr ''food''),
      (''nutrition'', JStr ''food''),
      (''housing'', JStr ''housing''),
      (''shelter'', JStr ''housing''),
      (''rental assistance'', JStr ''housing''),
      (''mental health'', JStr ''mental_health''),
      (''mental healthcare'', JStr ''mental_health''),
      (''counseling'', JStr ''mental_health''),
      (''therapy'', JStr ''mental_health''),
      (''legal'', JStr ''legal''),
      (''legal aid'', JStr ''legal''),
      (''legal services'', JStr ''legal''),
      (''jobs'', JStr ''jobs''),
      (''employment'', JStr ''jobs''),
      (''job training'', JStr ''jobs''),
      (''workforce'', JStr ''jobs''),
      (''career'', JStr ''jobs'')]"

text \<open>
  \<open>category.toLowerCase()\<close> is a call of a method that only strings have: on any other
  truthy value it throws a \<open>TypeError\<close>. \<open>categoryMap\<close> is an object literal, so
  \<open>categoryMap[categoryLower]\<close> is a property read like any other.
\<close>

definition mapCategory :: "jsval \<Rightarrow> error + jsval" where
  "mapCategory category' =
     (if \<not> truthy category' then Inr (JStr ''other'')
      else case category' of
             JStr s \<Rightarrow>
               (let categoryLower = toLowerCase s
                in Inr (jsOr (getProp (JObj categoryMap) categoryLower) (JStr categoryLower)))
           | _ \<Rightarrow> Inl TypeError)"

subsection \<open>extractZip\<close>

text \<open>
  The two regular expressions, without the \<open>u\<close> flag: \<open>\d\<close> is an ASCII digit, \<open>\w\<close> is
  an ASCII letter, digit or underscore, and \<open>\b\<close> holds between two positions of which
  exactly one holds a \<open>\w\<close> character (the ends of the text count as not \<open>\w\<close>).
  A match is tried at each position from the left; \<open>prevWord\<close> says whether the
  character before the position is a \<open>\w\<close> character.
\<close>

definition isDigit :: "char \<Rightarrow> bool" where
  "isDigit c = (let n = (of_char c :: nat) in 48 \<le> n \<and> n \<le> 57)"

definition isWordChar :: "char \<Rightarrow> bool" where
  "isWordChar c =
     (let n = (of_char c :: nat)
      in (48 \<le> n \<and> n \<le> 57) \<or> (65 \<le> n \<and> n \<le> 90) \<or> (97 \<le> n \<and> n \<le> 122) \<or> n = 95)"

text \<open>\<open>\d{n}\b\<close> at the head of \<open>s\<close>.\<close>

definition digitsThenBoundary :: "nat \<Rightarrow> string \<Rightarrow> bool" where
  "digitsThenBoundary n s =
     (n \<le> length s \<and> list_all isDigit (take n s) \<and>
      (case drop n s of [] \<Rightarrow> True | e # rest \<Rightarrow> \<not> isWordChar e))"

text \<open>\<open>/\b\d{5}\b/\<close> at the head of \<open>s\<close>: the matched text, if it matches there.\<close>

definition zip5At :: "bool \<Rightarrow> string \<Rightarrow> string option" where
  "zip5At prevWord s =
     (if \<not> prevWord \<and> digitsThenBoundary 5 s then Some (take 5 s) else None)"

text \<open>\<open>/\b\d{5}-\d{4}\b/\<close> at the head of \<open>s\<close>.\<close>

definition zipPlus4At :: "bool \<Rightarrow> string \<Rightarrow> string option" where
  "zipPlus4At prevWord s =
     (if \<not> prevWord \<and> 5 \<le> length s \<and> list_all isDigit (take 5 s) \<and>
         (case drop 5 s of [] \<Rightarrow> False | d # rest \<Rightarrow> d = CHR ''-'' \<and> digitsThenBoundary 4 rest)
      then Some (take 10 s) else None)"

text \<open>\<open>text.match(re)\<close> for a regular expression without the \<open>g\<close> flag: the leftmost match.\<close>

fun firstMatch :: "(bool \<Rightarrow> string \<Rightarrow> string option) \<Rightarrow> bool \<Rightarrow> string \<Rightarrow> string option" where
  "firstMatch matchAt prevWord [] = None"
| "firstMatch matchAt prevWord (c # cs) =
     (case matchAt prevWord (c # cs) of
        Some m \<Rightarrow> Some m
      | None \<Rightarrow> firstMatch matchAt (isWordChar c) cs)"

text \<open>\<open>text.match\<close> exists on strings only: any other truthy \<open>text\<close> throws a \<open>TypeError\<close>.\<close>

definition extractZip :: "jsval \<Rightarrow> error + jsval" where
  "extractZip text =
     (if \<not> truthy text then Inr (JStr [])
      else case text of
             JStr s \<Rightarrow>
               (case firstMatch zip5At False s of
                  Some zipMatch \<Rightarrow> Inr (JStr zipMatch)
                | None \<Rightarrow>
                    (case firstMatch zipPlus4At False s of
                       Some zipPlus4Match \<Rightarrow> Inr (JStr (substring0 5 zipPlus4Match))
                     | None \<Rightarrow> Inr (JStr [])))
           | _ \<Rightarrow> Inl TypeError)"

subsection \<open>normalizeResource\<close>

text \<open>The arguments of the calls \<open>mapCategory(...)\<close> and \<open>extractZip(...)\<close>.\<close>

definition categoryArgument :: "jsval \<Rightarrow> jsval" where
  "categoryArgument resource =
     jsOr (jsOr (getProp resource ''category'') (getProp resource ''service_category''))
       (getProp resource ''type'')"

definition zipArgument :: "jsval \<Rightarrow> jsval" where
  "zipArgument resource =
     jsOr (jsOr (jsOr (jsOr (getProp resource ''zip'') (getProp resource ''postal_code''))
                   (optionalProp (getProp resource ''location'') ''postal_code''))
             (getProp resource ''address''))
       (JStr [])"

text \<open>
  The test \<open>resource.id && resource.name && resource.category\<close> of the first line.
\<close>

definition alreadyInFormat :: "jsval \<Rightarrow> bool" where
  "alreadyInFormat resource =
     (truthy (getProp resource ''id'') \<and> truthy (getProp resource ''name'') \<and>
      truthy (getProp resource ''category''))"

text \<open>
  Reading \<open>resource.id\<close> of \<open>null\<close> or \<open>undefined\<close> throws. The fields of the object
  literal are evaluated in order: \<open>Math.random()\<close> is drawn for \<open>id\<close> only when the three
  identifier fields are falsy, before \<open>mapCategory\<close> or \<open>extractZip\<close> can throw. The
  second parameter \<open>source\<close> is never read and is left out.
\<close>

definition normalizeResource :: "random_source \<Rightarrow> nat \<Rightarrow> jsval \<Rightarrow> (error + jsval) \<times> nat" where
  "normalizeResource rnd k resource =
     (if resource = JUndefined \<or> resource = JNull then (Inl TypeError, k)
      else if alreadyInFormat resource then (Inr resource, k)
      else
        let known = jsOr (jsOr (getProp resource ''id'') (getProp resource ''resource_id''))
                      (getProp resource ''organization_id'');
            (idValue, k1) = (if truthy known then (known, k) else (JNum (doubleValue (rnd k)), Suc k))
        in case mapCategory (categoryArgument resource) of
             Inl e \<Rightarrow> (Inl e, k1)
           | Inr categoryValue \<Rightarrow>
               (case extractZip (zipArgument resource) of
                  Inl e \<Rightarrow> (Inl e, k1)
                | Inr zipValue \<Rightarrow>
                    (Inr (JObj
                       [(''id'', idValue),
                        (''name'',
                           jsOr (jsOr (jsOr (getProp resource ''name'')
                                         (getProp resource ''organization_name''))
                                   (getProp resource ''title''))
                             (JStr ''Unknown Resource'')),
                        (''category'', categoryValue),
                        (''address'',
                           jsOr (jsOr (jsOr (getProp resource ''address'')
                                         (optionalProp (getProp resource ''location'') ''address''))
                                   (getProp resource ''physical_address''))
                             (JStr [])),
                        (''zip'', zipValue),
                        (''hours'',
                           jsOr (jsOr (jsOr (getProp resource ''hours'')
                                         (getProp resource ''hours_of_operation''))
                                   (getProp resource ''schedule''))
                             (JStr ''Contact for hours'')),
                        (''phone'',
                           jsOr (jsOr (jsOr (getProp resource ''phone'')
                                         (getProp resource ''phone_number''))
                                   (getProp resource ''contact_phone''))
                             (JStr [])),
                        (''website'',
                           jsOr (jsOr (jsOr (getProp resource ''website'') (getProp resource ''url''))
                                   (getProp resource ''web_url''))
                             (JStr [])),
                        (''eligibilityNotes'',
                           jsOr (jsOr (jsOr (jsOr (getProp resource ''eligibilityNotes'')
                                               (getProp resource ''eligibility_notes''))
                                         (getProp resource ''eligibility''))
                                   (getProp resource ''description''))
                             (JStr [])),
                        (''eligibilityTags'',
                           jsOr (jsOr (jsOr (getProp resource ''eligibilityTags'')
                                         (getProp resource ''eligibility_tags''))
                                   (getProp resource ''tags''))
                             (JArr [])),
                        (''languagesSupported'',
                           jsOr (jsOr (jsOr (getProp resource ''languagesSupported'')
                                         (getProp resource ''languages_supported''))
                                   (getProp resource ''languages''))
                             (JArr [JStr ''English'']))]),
                     k1)))"

subsection \<open>The catalog cache: getAllResources and refreshResources\<close>

text \<open>
  The module-level variable \<open>resourceCache\<close>; \<open>None\<close> is \<open>null\<close>. Times are
  milliseconds, as \<open>Date.now()\<close> counts them.
\<close>

record resourceCache =
  data :: "jsval list option"
  timestamp :: "int option"
  ttl :: int

definition initialCache :: resourceCache where
  "initialCache = \<lparr>data = None, timestamp = None, ttl = 3600000\<rparr>"

text \<open>
  The three loaders do input and output. The state of the service is the cache together
  with the trace of the loader calls made so far, so that a read that fetches nothing
  is a read that leaves the trace as it was.
\<close>

datatype loaderCall = FetchFromAPI | FetchFromDatabase | LoadFromJSON

record service =
  cache :: resourceCache
  loaderCalls :: "loaderCall list"

text \<open>
  What one call of \<open>getAllResources\<close> meets outside the module: the two readings of
  \<open>Date.now()\<close> (at the cache test and when the cache is written), the environment
  variables, and what the loaders deliver at this moment. \<open>fetchFromAPI\<close> resolves to
  an array of normalized records or throws; \<open>loadFromJSON\<close> catches every error itself
  and returns an array (an empty one on error).
\<close>

record environment =
  dateNow :: int
  dateNowAfterLoad :: int
  RESOURCE_DATA_SOURCE :: "string option"
  RESOURCE_API_URL :: "string option"
  fetchFromAPI :: "error + jsval list"
  loadFromJSON :: "jsval list"

text \<open>
  The cache test: \<open>data\<close> and \<open>timestamp\<close> truthy (an array always is, a number is
  unless it is zero) and the age below the time to live. The result is the cached
  array when the test succeeds.
\<close>

definition cachedResources :: "environment \<Rightarrow> resourceCache \<Rightarrow> jsval list option" where
  "cachedResources env c =
     (case data c of
        None \<Rightarrow> None
      | Some d \<Rightarrow>
          (case timestamp c of
             None \<Rightarrow> None
           | Some t \<Rightarrow> if t \<noteq> 0 \<and> dateNow env - t < ttl c then Some d else None))"

text \<open>\<open>process.env.RESOURCE_DATA_SOURCE || 'json'\<close>.\<close>

definition dataSourceOf :: "environment \<Rightarrow> string" where
  "dataSourceOf env =
     (case RESOURCE_DATA_SOURCE env of
        None \<Rightarrow> ''json''
      | Some s \<Rightarrow> if s = [] then ''json'' else s)"

text \<open>The \<open>switch\<close> statement: its result or the error thrown, and the loaders it called.\<close>

definition switchDataSource :: "environment \<Rightarrow> (error + jsval list) \<times> loaderCall list" where
  "switchDataSource env =
     (if toLowerCase (dataSourceOf env) = ''api'' then
        (case RESOURCE_API_URL env of
           None \<Rightarrow> (Inl (Error ''RESOURCE_API_URL not configured''), [])
         | Some apiUrl \<Rightarrow>
             if apiUrl = [] then (Inl (Error ''RESOURCE_API_URL not configured''), [])
             else (fetchFromAPI env, [FetchFromAPI]))
      else if toLowerCase (dataSourceOf env) = ''database'' then (Inr [], [FetchFromDatabase])
      else (Inr (loadFromJSON env), [LoadFromJSON]))"

definition store :: "environment \<Rightarrow> service \<Rightarrow> jsval list \<Rightarrow> loaderCall list \<Rightarrow> service" where
  "store env st resources calls =
     \<lparr>cache = (cache st)\<lparr>data := Some resources, timestamp := Some (dateNowAfterLoad env)\<rparr>,
      loaderCalls = loaderCalls st @ calls\<rparr>"

definition getAllResources :: "environment \<Rightarrow> service \<Rightarrow> (error + jsval list) \<times> service" where
  "getAllResources env st =
     (case cachedResources env (cache st) of
        Some d \<Rightarrow> (Inr d, st)
      | None \<Rightarrow>
         (case switchDataSource env of
            (Inr resources, calls) \<Rightarrow>
              if length resources = 0 \<and> dataSourceOf env \<noteq> ''json''
              then (Inr (loadFromJSON env),
                    store env st (loadFromJSON env) (calls @ [LoadFromJSON]))
              else (Inr resources, store env st resources calls)
          | (Inl err, calls) \<Rightarrow>
              if dataSourceOf env \<noteq> ''json''
              then (Inr (loadFromJSON env),
                    store env st (loadFromJSON env) (calls @ [LoadFromJSON]))
              else (Inl err, st\<lparr>loaderCalls := loaderCalls st @ calls\<rparr>)))"

definition refreshResources :: "environment \<Rightarrow> service \<Rightarrow> (error + jsval list) \<times> service" where
  "refreshResources env st =
     getAllResources env (st\<lparr>cache := (cache st)\<lparr>data := None, timestamp := None\<rparr>\<rparr>)"

section \<open>From normalized records to the match engine\<close>

text \<open>
  The field of a \<open>Resource\<close> that holds a list of strings stands for a JavaScript
  value: the absent field for \<open>undefined\<close> or \<open>null\<close>, a list for the array of its strings.
\<close>

definition stringArrayField :: "jsval \<Rightarrow> string list option \<Rightarrow> bool" where
  "stringArrayField v field =
     (case field of
        None \<Rightarrow> v = JUndefined \<or> v = JNull
      | Some strings \<Rightarrow> v = JArr (map JStr strings))"

section \<open>Collations\<close>

text \<open>
  The order of the code units, which is what \<open><\<close> on JavaScript strings and a
  case-sensitive lexicographic comparison are.
\<close>

definition codeUnitCompare :: collation where
  "codeUnitCompare a b = (if a < b then -1 else if b < a then 1 else 0)"

text \<open>
  The collation of the Unicode Collation Algorithm, which \<open>localeCompare\<close> follows in
  Node (ICU, English and root locale), on names made of ASCII letters: the letters
  decide first, whatever their case; names with the same letters are ordered by case,
  lower case first.
\<close>

definition letterCollation :: collation where
  "letterCollation a b =
     (if toLowerCase a < toLowerCase b then -1
      else if toLowerCase b < toLowerCase a then 1
      else if b < a then -1
      else if a < b then 1
      else 0)"

section \<open>Example data\<close>

definition foodResource :: "rat \<Rightarrow> string \<Rightarrow> string \<Rightarrow> Resource" where
  "foodResource i n z =
     \<lparr>id_r = i, name = n, category = ''food'', address = ''1200 International Blvd'',
      zip_r = z, hours = ''Mon-Fri: 9am-5pm'', phone = ''(510) 123-4567'',
      website = ''https://example.com'', eligibilityNotes = ''Open to all'',
      eligibilityTags = Some [], languagesSupported = Some [''English'']\<rparr>"

definition exampleCriteria :: UserInfo where
  "exampleCriteria =
     \<lparr>zip_u = ''94601'', ageRange = ''30-40'', incomeBracket = ''low'', householdSize = 1,
      primaryNeed = ''food'', preferredLanguage = Some ''English''\<rparr>"

definition halves :: random_source where
  "halves k = \<lparr>mantissa = 1, exponent = - 1\<rparr>"

text \<open>The double nearest to 0.7, on every draw.\<close>

definition sevenTenths :: random_source where
  "sevenTenths k = \<lparr>mantissa = 6305039478318694, exponent = - 53\<rparr>"

section \<open>Shapes of raw records\<close>

definition isString :: "jsval \<Rightarrow> bool" where
  "isString v = (case v of JStr s \<Rightarrow> True | _ \<Rightarrow> False)"

text \<open>A value that is a string, or that the code takes for a missing one.\<close>

definition stringOrFalsy :: "jsval \<Rightarrow> bool" where
  "stringOrFalsy v = (isString v \<or> \<not> truthy v)"

text \<open>The fields of a raw record that \<open>normalizeResource\<close> reads.\<close>

definition fieldsRead :: "string list" where
  "fieldsRead =
     [''id'', ''resource_id'', ''organization_id'',
      ''name'', ''organization_name'', ''title'',
      ''category'', ''service_category'', ''type'',
      ''address'', ''location'', ''physical_address'',
      ''zip'', ''postal_code'',
      ''hours'', ''hours_of_operation'', ''schedule'',
      ''phone'', ''phone_number'', ''contact_phone'',
      ''website'', ''url'', ''web_url'',
      ''eligibilityNotes'', ''eligibility_notes'', ''eligibility'', ''description'',
      ''eligibilityTags'', ''eligibility_tags'', ''tags'',
      ''languagesSupported'', ''languages_supported'', ''languages'']"

text \<open>The record that \<open>normalizeResource\<close> builds when every field is missing.\<close>

definition defaultRecord :: "rat \<Rightarrow> jsval" where
  "defaultRecord randomId =
     JObj [(''id'', JNum randomId),
           (''name'', JStr ''Unknown Resource''),
           (''category'', JStr ''other''),
           (''address'', JStr []),
           (''zip'', JStr []),
           (''hours'', JStr ''Contact for hours''),
           (''phone'', JStr []),
           (''website'', JStr []),
           (''eligibilityNotes'', JStr []),
           (''eligibilityTags'', JArr []),
           (''languagesSupported'', JArr [JStr ''English''])]"

section \<open>Example records\<close>

text \<open>The record of the README, in the format of the static catalog.\<close>

definition canonicalRecord :: jsval where
  "canonicalRecord =
     JObj [(''id'', JNum 11),
           (''name'', JStr ''Resource Name''),
           (''category'', JStr ''food''),
           (''address'', JStr ''Full address''),
           (''zip'', JStr ''94601''),
           (''hours'', JStr ''Mon-Fri: 9am-5pm''),
           (''phone'', JStr ''(510) 123-4567''),
           (''website'', JStr ''https://example.com''),
           (''eligibilityNotes'', JStr ''Eligibility description''),
           (''eligibilityTags'', JArr [JStr ''low_income'', JStr ''senior'']),
           (''languagesSupported'', JArr [JStr ''English'', JStr ''Spanish''])]"

text \<open>A record with the three fields, whose name is the empty string.\<close>

definition emptyNameRecord :: jsval where
  "emptyNameRecord =
     JObj [(''id'', JNum 7), (''name'', JStr []), (''category'', JStr ''food'')]"

text \<open>A record of a remote catalog that gives the ZIP code as a JSON number.\<close>

definition numericZipRecord :: jsval where
  "numericZipRecord =
     JObj [(''organization_name'', JStr ''Food Pantry''), (''zip'', JNum 94601)]"

text \<open>A record of a remote catalog, in another naming and with no language field.\<close>

definition shelterRecord :: jsval where
  "shelterRecord =
     JObj [(''organization_name'', JStr ''Shelter One''),
           (''type'', JStr ''Rental Assistance''),
           (''address'', JStr ''12 Main St, Oakland, CA 94601-1234'')]"

text \<open>A service whose cache was filled at time 1000, and a read one minute later.\<close>

definition filledService :: service where
  "filledService =
     \<lparr>cache = \<lparr>data = Some [canonicalRecord], timestamp = Some 1000, ttl = 3600000\<rparr>,
      loaderCalls = [LoadFromJSON]\<rparr>"

definition laterRead :: environment where
  "laterRead =
     \<lparr>dateNow = 61000, dateNowAfterLoad = 61005, RESOURCE_DATA_SOURCE = None,
      RESOURCE_API_URL = None, fetchFromAPI = Inr [],
      loadFromJSON = [canonicalRecord, defaultRecord (1 / 2)]\<rparr>"

section \<open>Properties of the runtime model\<close>

lemma lowerChar_idem: "lowerChar (lowerChar c) = lowerChar c"
proof -
  have "(of_char c :: nat) < 256" by simp
  then show ?thesis
    by (auto simp add: lowerChar_def Let_def)
qed

lemma toLowerCase_idem: "toLowerCase (toLowerCase s) = toLowerCase s"
  by (simp add: toLowerCase_def lowerChar_idem)

lemma set_insertSorted: "set (insertSorted cmp x ys) = insert x (set ys)"
  by (induction ys) auto

lemma length_insertSorted: "length (insertSorted cmp x ys) = Suc (length ys)"
  by (induction ys) auto

lemma set_arraySort: "set (arraySort cmp xs) = set xs"
  by (induction xs) (auto simp: arraySort_def set_insertSorted)

lemma length_arraySort: "length (arraySort cmp xs) = length xs"
  by (induction xs) (auto simp: arraySort_def length_insertSorted)

lemma sorted_insertSorted:
  assumes total: "\<And>a b. \<not> cmp a b \<le> 0 \<Longrightarrow> cmp b a \<le> 0"
    and trans: "\<And>a b c. cmp a b \<le> 0 \<Longrightarrow> cmp b c \<le> 0 \<Longrightarrow> cmp a c \<le> 0"
    and sorted: "sorted_wrt (\<lambda>a b. cmp a b \<le> 0) ys"
  shows "sorted_wrt (\<lambda>a b. cmp a b \<le> 0) (insertSorted cmp x ys)"
  using sorted
proof (induction ys)
  case Nil
  then show ?case by simp
next
  case (Cons y ys)
  show ?case
  proof (cases "cmp x y \<le> 0")
    case True
    with Cons.prems trans show ?thesis by auto
  next
    case False
    with total have "cmp y x \<le> 0" by blast
    with False Cons show ?thesis by (auto simp: set_insertSorted)
  qed
qed

lemma sorted_arraySort:
  assumes total: "\<And>a b. \<not> cmp a b \<le> 0 \<Longrightarrow> cmp b a \<le> 0"
    and trans: "\<And>a b c. cmp a b \<le> 0 \<Longrightarrow> cmp b c \<le> 0 \<Longrightarrow> cmp a c \<le> 0"
  shows "sorted_wrt (\<lambda>a b. cmp a b \<le> 0) (arraySort cmp xs)"
proof (induction xs)
  case Nil
  then show ?case by (simp add: arraySort_def)
next
  case (Cons x xs)
  then have "sorted_wrt (\<lambda>a b. cmp a b \<le> 0) (insertSorted cmp x (arraySort cmp xs))"
    using total trans by (rule sorted_insertSorted [rotated 2])
  then show ?case by (simp add: arraySort_def)
qed

text \<open>Stability: the elements that compare equal to a given one keep their order.\<close>

lemma filter_insertSorted:
  assumes sgn: "\<And>a b. sgn (cmp b a) = - sgn (cmp a b)"
    and trans: "\<And>a b c. cmp a b \<le> 0 \<Longrightarrow> cmp b c \<le> 0 \<Longrightarrow> cmp a c \<le> 0"
  shows "filter (\<lambda>m. cmp a m = 0) (insertSorted cmp x ys) =
         (if cmp a x = 0 then x # filter (\<lambda>m. cmp a m = 0) ys else filter (\<lambda>m. cmp a m = 0) ys)"
proof (induction ys)
  case Nil
  then show ?case by simp
next
  case (Cons y ys)
  show ?case
  proof (cases "cmp x y \<le> 0")
    case True
    then show ?thesis by simp
  next
    case False
    have "\<not> (cmp a x = 0 \<and> cmp a y = 0)"
    proof
      assume h: "cmp a x = 0 \<and> cmp a y = 0"
      with sgn [of a x] have "cmp x a = 0" by (simp add: sgn_if split: if_splits)
      with h trans [of x a y] have "cmp x y \<le> 0" by simp
      with False show False by simp
    qed
    with False Cons show ?thesis by auto
  qed
qed

lemma filter_arraySort:
  assumes sgn: "\<And>a b. sgn (cmp b a) = - sgn (cmp a b)"
    and trans: "\<And>a b c. cmp a b \<le> 0 \<Longrightarrow> cmp b c \<le> 0 \<Longrightarrow> cmp a c \<le> 0"
  shows "filter (\<lambda>m. cmp a m = 0) (arraySort cmp xs) = filter (\<lambda>m. cmp a m = 0) xs"
proof (induction xs)
  case Nil
  then show ?case by (simp add: arraySort_def)
next
  case (Cons x xs)
  have "filter (\<lambda>m. cmp a m = 0) (insertSorted cmp x (arraySort cmp xs)) =
        (if cmp a x = 0 then x # filter (\<lambda>m. cmp a m = 0) (arraySort cmp xs)
         else filter (\<lambda>m. cmp a m = 0) (arraySort cmp xs))"
    using sgn trans by (rule filter_insertSorted)
  with Cons show ?case by (simp add: arraySort_def)
qed

lemma letterCollation_consistent: "consistentCollation letterCollation"
  unfolding consistentCollation_def letterCollation_def
  by (auto split: if_splits)

lemma codeUnitCompare_consistent: "consistentCollation codeUnitCompare"
  unfolding consistentCollation_def codeUnitCompare_def
  by (auto split: if_splits)

lemma unitInterval_halves: "unitInterval halves"
  by (simp add: unitInterval_def halves_def isDouble_def doubleValue_def)

lemma unitInterval_sevenTenths: "unitInterval sevenTenths"
  by (simp add: unitInterval_def sevenTenths_def isDouble_def doubleValue_def)

subsection \<open>Products of doubles\<close>

lemma excessBits_zero: "n < 2 ^ 53 \<Longrightarrow> excessBits n = 0"
  by (subst excessBits.simps) simp

lemma excessBits_le: "n < 2 ^ (53 + j) \<Longrightarrow> excessBits n \<le> j"
proof (induction j arbitrary: n)
  case 0
  then show ?case by (simp add: excessBits_zero)
next
  case (Suc j)
  show ?case
  proof (cases "n < 2 ^ 53")
    case True
    then show ?thesis by (simp add: excessBits_zero)
  next
    case False
    from Suc.prems have "n < 2 * 2 ^ (53 + j)" by (simp only: add_Suc_right power_Suc)
    then have "n div 2 < 2 ^ (53 + j)" by linarith
    then have "excessBits (n div 2) \<le> j" by (rule Suc.IH)
    with False show ?thesis by (subst excessBits.simps) simp
  qed
qed

lemma excessBits_pos: "0 < excessBits n \<Longrightarrow> 2 ^ 53 \<le> n"
  by (subst (asm) excessBits.simps) (simp split: if_splits)

lemma roundShift_zero: "roundShift n 0 = n"
  by (simp add: roundShift_def)

text \<open>Rounding to the nearest never reaches a bound that is more than half a unit away.\<close>

lemma roundShift_less:
  assumes s: "0 < s" and b: "n + 2 ^ (s - 1) < k * 2 ^ s"
  shows "roundShift n s < k"
proof -
  from s have p: "(2::int) ^ s = 2 * 2 ^ (s - 1)" by (cases s) simp_all
  define q where "q = n div 2 ^ s"
  define r where "r = n mod 2 ^ s"
  have n: "q * 2 ^ s + r = n" unfolding q_def r_def by (rule div_mult_mod_eq)
  have r0: "0 \<le> r" by (simp add: r_def)
  have pos: "(0::int) < 2 ^ s" by simp
  have qk: "q < k"
  proof (rule ccontr)
    assume "\<not> q < k"
    then have "k * 2 ^ s \<le> q * 2 ^ s" using pos by simp
    moreover have "(0::int) < 2 ^ (s - 1)" by simp
    ultimately show False using n r0 b by linarith
  qed
  have up: "q + 1 < k" if "2 ^ s \<le> 2 * r"
  proof (rule ccontr)
    assume "\<not> q + 1 < k"
    then have "k \<le> q + 1" by simp
    then have "k * 2 ^ s \<le> (q + 1) * 2 ^ s" using pos by simp
    also have "\<dots> = q * 2 ^ s + 2 ^ (s - 1) + 2 ^ (s - 1)" using p by (simp add: algebra_simps)
    also from that p have "\<dots> \<le> q * 2 ^ s + r + 2 ^ (s - 1)" by simp
    finally show False using n b by linarith
  qed
  show ?thesis
    unfolding roundShift_def Let_def q_def [symmetric] r_def [symmetric]
    using qk up by auto
qed

lemma roundShift_nonneg: "0 \<le> n \<Longrightarrow> 0 \<le> roundShift n s"
  by (auto simp: roundShift_def Let_def pos_imp_zdiv_nonneg_iff)

lemma doubleValue_nonneg: "0 \<le> mantissa d \<Longrightarrow> 0 \<le> doubleValue d"
  by (simp add: doubleValue_def)

lemma doubleValue_nonpos_exponent:
  "e \<le> 0 \<Longrightarrow> doubleValue \<lparr>mantissa = a, exponent = e\<rparr> = of_int a / 2 ^ nat (- e)"
  by (cases "e = 0") (simp_all add: doubleValue_def)

text \<open>
  The rounded product of a double below 1 with a small whole number \<open>c\<close> stays below
  \<open>c\<close>: the largest such double is a whole unit of its last place below 1, which puts
  the exact product \<open>c\<close> units, more than half a unit of the rounded result, below \<open>c\<close>.
\<close>

lemma multiplyBy_less:
  assumes m0: "0 \<le> mantissa d" and m: "mantissa d < 2 ^ 53" and v: "doubleValue d < 1"
    and c: "c * 2 ^ 53 \<le> 2 ^ (53 + j)" and half: "2 ^ j < 2 * c" and j: "j \<le> 26"
  shows "doubleValue (multiplyBy c d) < of_int c"
proof (cases "excessBits (c * mantissa d) = 0")
  case True
  from half zero_less_power [of "2::int" j] have cpos: "0 < c" by linarith
  then have cpos': "(0::rat) < of_int c" by simp
  from True have "doubleValue (multiplyBy c d) = of_int c * doubleValue d"
    by (simp add: multiplyBy_def Let_def roundShift_zero doubleValue_def)
  also have "\<dots> < of_int c * 1"
    using v cpos' by (rule mult_strict_left_mono)
  finally show ?thesis by simp
next
  case False
  define n where "n = c * mantissa d"
  define s where "s = excessBits n"
  define e where "e = exponent d"
  define E where "E = nat (- e)"
  from half zero_less_power [of "2::int" j] have cpos: "0 < c" by linarith
  from False have s0: "0 < s" by (simp add: s_def n_def)
  then have big: "2 ^ 53 \<le> n" unfolding s_def by (rule excessBits_pos)
  from m cpos have "n < c * 2 ^ 53" unfolding n_def by simp
  with c have "n < 2 ^ (53 + j)" by linarith
  then have sj: "s \<le> j" unfolding s_def by (rule excessBits_le)
  have mpos: "0 < mantissa d"
  proof (rule ccontr)
    assume "\<not> 0 < mantissa d"
    with m0 have "mantissa d = 0" by simp
    with big show False by (simp add: n_def)
  qed
  have eneg: "e < 0"
  proof (rule ccontr)
    assume "\<not> e < 0"
    then have "doubleValue d = of_int (mantissa d) * 2 ^ nat e"
      by (simp add: doubleValue_def e_def)
    moreover have "(1::rat) \<le> of_int (mantissa d) * 2 ^ nat e"
    proof -
      from mpos have "(1::rat) \<le> of_int (mantissa d)" by simp
      moreover have "(1::rat) \<le> 2 ^ nat e" by simp
      ultimately have "(1::rat) * 1 \<le> of_int (mantissa d) * 2 ^ nat e"
        using mpos by (intro mult_mono) simp_all
      then show ?thesis by simp
    qed
    ultimately show False using v by simp
  qed
  then have dv: "doubleValue d = of_int (mantissa d) / 2 ^ E"
    by (simp add: doubleValue_def e_def E_def)
  with v have "(of_int (mantissa d) :: rat) < 2 ^ E" by simp
  then have "(of_int (mantissa d) :: rat) < of_int (2 ^ E)" by simp
  then have mE: "mantissa d < 2 ^ E" by (simp only: of_int_less_iff)
  then have "mantissa d + 1 \<le> 2 ^ E" by simp
  with cpos have "c * (mantissa d + 1) \<le> c * 2 ^ E" by simp
  then have nc: "n + c \<le> c * 2 ^ E" by (simp add: n_def algebra_simps)
  from s0 have p: "(2::int) ^ s = 2 * 2 ^ (s - 1)" by (cases s) simp_all
  from sj have "(2::int) ^ s \<le> 2 ^ j" by simp
  with half p have small: "2 ^ (s - 1) < c" by linarith
  have cj: "c \<le> 2 ^ j"
  proof -
    from c have "c * 2 ^ 53 \<le> 2 ^ j * 2 ^ 53" by (simp add: power_add mult.commute)
    then show ?thesis by simp
  qed
  have Es: "s \<le> E"
  proof -
    from nc cpos have "n < c * 2 ^ E" by linarith
    also from cj have "\<dots> \<le> 2 ^ j * 2 ^ E" by simp
    finally have "n < 2 ^ (j + E)" by (simp add: power_add)
    with big have lt: "(2::int) ^ 53 < 2 ^ (j + E)" by (rule le_less_trans)
    have "(1::int) < 2" by simp
    from this lt have "53 < j + E" by (rule power_less_imp_less_exp)
    with j sj show ?thesis by linarith
  qed
  then have split: "(2::int) ^ E = 2 ^ (E - s) * 2 ^ s"
    by (simp add: power_add [symmetric])
  from nc small have "n + 2 ^ (s - 1) < c * 2 ^ E" by linarith
  with split have "n + 2 ^ (s - 1) < (c * 2 ^ (E - s)) * 2 ^ s" by (simp add: mult.assoc)
  with s0 have r: "roundShift n s < c * 2 ^ (E - s)" by (rule roundShift_less)
  have ex: "e + int s \<le> 0" and nx: "nat (- (e + int s)) = E - s"
    using Es eneg by (simp_all add: E_def)
  have "doubleValue (multiplyBy c d) = of_int (roundShift n s) / 2 ^ (E - s)"
    unfolding multiplyBy_def Let_def n_def [symmetric] s_def [symmetric] e_def [symmetric]
    using doubleValue_nonpos_exponent [OF ex, of "roundShift n s"] nx by simp
  also have "\<dots> < of_int (c * 2 ^ (E - s)) / 2 ^ (E - s)"
  proof (rule divide_strict_right_mono)
    from r show "(of_int (roundShift n s) :: rat) < of_int (c * 2 ^ (E - s))"
      by (simp only: of_int_less_iff)
    show "(0::rat) < 2 ^ (E - s)" by simp
  qed
  also have "\<dots> = of_int c" by simp
  finally show ?thesis .
qed

lemma multiplyBy_nonneg:
  assumes "0 \<le> mantissa d" "0 \<le> c"
  shows "0 \<le> doubleValue (multiplyBy c d)"
proof (rule doubleValue_nonneg)
  from assms have "0 \<le> c * mantissa d" by simp
  then show "0 \<le> mantissa (multiplyBy c d)"
    by (simp add: multiplyBy_def Let_def roundShift_nonneg)
qed

text \<open>
  The rounding is the runtime's: the double nearest to 0.7 times 10 is the double 7,
  although the exact product is below 7, and the largest double below 1 times 10 is
  below 10.
\<close>

lemma multiplyBy_examples:
  "mathFloor (multiplyBy 10 \<lparr>mantissa = 6305039478318694, exponent = - 53\<rparr>) = 7"
  "\<lfloor>doubleValue \<lparr>mantissa = 6305039478318694, exponent = - 53\<rparr> * 10\<rfloor> = 6"
  "mathFloor (multiplyBy 10 \<lparr>mantissa = 9007199254740991, exponent = - 53\<rparr>) = 9"
  "mathFloor (multiplyBy 5 \<lparr>mantissa = 9007199254740991, exponent = - 53\<rparr>) = 4"
  by code_simp+

section \<open>Properties of the match engine\<close>

lemma compareMatches_sgn:
  assumes "consistentCollation lc"
  shows "sgn (compareMatches lc b a) = - sgn (compareMatches lc a b)"
proof (cases "distance a = distance b")
  case True
  from assms have "sgn (lc (name b) (name a)) = - sgn (lc (name a) (name b))"
    unfolding consistentCollation_def by blast
  with True show ?thesis by (simp only: compareMatches_def if_False simp_thms)
next
  case False
  then show ?thesis by (auto simp: compareMatches_def sgn_if)
qed

lemma compareMatches_total:
  assumes "consistentCollation lc" "\<not> compareMatches lc a b \<le> 0"
  shows "compareMatches lc b a \<le> 0"
proof -
  from assms(2) have "sgn (compareMatches lc a b) = 1" by (simp add: sgn_if)
  with compareMatches_sgn [OF assms(1), of b a] have "sgn (compareMatches lc b a) = - 1" by simp
  then show ?thesis by (simp add: sgn_if split: if_splits)
qed

lemma compareMatches_le_iff:
  "compareMatches lc a b \<le> 0 \<longleftrightarrow>
     distance a < distance b \<or> (distance a = distance b \<and> lc (name a) (name b) \<le> 0)"
  by (auto simp: compareMatches_def)

lemma compareMatches_trans:
  assumes "consistentCollation lc" "compareMatches lc a b \<le> 0" "compareMatches lc b c \<le> 0"
  shows "compareMatches lc a c \<le> 0"
proof -
  from assms(1) have tr: "\<And>x y z. lc x y \<le> 0 \<Longrightarrow> lc y z \<le> 0 \<Longrightarrow> lc x z \<le> 0"
    unfolding consistentCollation_def by blast
  from assms(2,3) tr show ?thesis
    unfolding compareMatches_le_iff by auto
qed

lemma withDistance_sel:
  "category (withDistance r d) = category r"
  "name (withDistance r d) = name r"
  "zip_r (withDistance r d) = zip_r r"
  "distance (withDistance r d) = d"
  "Resource.truncate (withDistance r d) = r"
  by (simp_all add: withDistance_def Resource.extend_def MatchResult.fields_def
      Resource.truncate_def)

lemma matchesWithDistance_elem:
  "m \<in> set (fst (matchesWithDistance rnd k z rs)) \<Longrightarrow>
     \<exists>r \<in> set rs. \<exists>j. m = withDistance r (fst (calculateDistance rnd j z (zip_r r)))"
proof (induction rs arbitrary: k)
  case Nil
  then show ?case by simp
next
  case (Cons r rs)
  then show ?case
    by (fastforce simp: split_def Let_def)
qed

lemma matchesWithDistance_truncate:
  "map Resource.truncate (fst (matchesWithDistance rnd k z rs)) = rs"
  by (induction rs arbitrary: k) (auto simp: split_def Let_def withDistance_sel)

lemma matchResources_set:
  "set (fst (matchResources lc rnd k R C))
     \<subseteq> set (fst (matchesWithDistance rnd k (zip_u C) (prioritizedMatches R C)))"
  by (auto simp: matchResources_def split_def Let_def set_arraySort dest: in_set_takeD)

lemma prioritizedMatches_subset: "set (prioritizedMatches R C) \<subseteq> set (matches R C)"
  by (auto simp: prioritizedMatches_def languageMatches_def)

lemma matches_iff:
  "r \<in> set (matches R C) \<longleftrightarrow>
     r \<in> set R \<and> category r = primaryNeed C \<and> matchesEligibility r C"
  by (auto simp: matches_def matchesByCategory_def)

lemma matchResources_elem:
  assumes "m \<in> set (fst (matchResources lc rnd k R C))"
  shows "\<exists>r \<in> set (matches R C). \<exists>j.
           m = withDistance r (fst (calculateDistance rnd j (zip_u C) (zip_r r)))"
proof -
  from assms matchResources_set
  have "m \<in> set (fst (matchesWithDistance rnd k (zip_u C) (prioritizedMatches R C)))"
    by blast
  then obtain r j where "r \<in> set (prioritizedMatches R C)"
    and "m = withDistance r (fst (calculateDistance rnd j (zip_u C) (zip_r r)))"
    using matchesWithDistance_elem by blast
  with prioritizedMatches_subset show ?thesis by blast
qed

lemma matchResources_no_matches:
  assumes "matches R C = []"
  shows "matchResources lc rnd k R C = ([], k)"
proof -
  from assms have "prioritizedMatches R C = []"
    by (simp add: prioritizedMatches_def languageMatches_def)
  then show ?thesis
    by (simp add: matchResources_def arraySort_def)
qed

text \<open>
  Claim C1. For every list of resources and every criteria record, \<open>matchResources\<close>
  returns a list of at most five results, each of the category \<open>primaryNeed\<close>; on the
  empty list, and when no resource passes the category and eligibility filters, it
  returns the empty list (and draws no random number). The model has no error value
  for \<open>matchResources\<close>: on records of these types no step of it can throw.
\<close>

theorem matchResources_bounded_in_category:
  "length (fst (matchResources lc rnd k R C)) \<le> 5 \<and>
   (\<forall>m \<in> set (fst (matchResources lc rnd k R C)). category m = primaryNeed C) \<and>
   matchResources lc rnd k [] C = ([], k) \<and>
   ((\<forall>r \<in> set R. \<not> (category r = primaryNeed C \<and> matchesEligibility r C)) \<longrightarrow>
      matchResources lc rnd k R C = ([], k))"
proof -
  have len: "length (fst (matchResources lc rnd k R C)) \<le> 5"
    by (simp add: matchResources_def split_def Let_def)
  have cat: "category m = primaryNeed C" if "m \<in> set (fst (matchResources lc rnd k R C))" for m
  proof -
    from that obtain r j where r: "r \<in> set (matches R C)"
      and m: "m = withDistance r (fst (calculateDistance rnd j (zip_u C) (zip_r r)))"
      using matchResources_elem by blast
    from r have "category r = primaryNeed C" by (simp add: matches_iff)
    with m show ?thesis by (simp add: withDistance_sel)
  qed
  have emp: "matchResources lc rnd k [] C = ([], k)"
    by (rule matchResources_no_matches) (simp add: matches_def matchesByCategory_def)
  have none: "matchResources lc rnd k R C = ([], k)"
    if "\<forall>r \<in> set R. \<not> (category r = primaryNeed C \<and> matchesEligibility r C)"
  proof (rule matchResources_no_matches)
    from that show "matches R C = []"
      by (auto simp: matches_def matchesByCategory_def filter_empty_conv)
  qed
  from len cat emp none show ?thesis by blast
qed

theorem matchResources_bounded_in_category_witness:
  "length (fst (matchResources codeUnitCompare halves 0
      [foodResource 1 ''Pantry'' ''94601'', foodResource 2 ''Kitchen'' ''94612''] exampleCriteria)) = 2 \<and>
   list_all (\<lambda>m. category m = ''food'')
     (fst (matchResources codeUnitCompare halves 0
        [foodResource 1 ''Pantry'' ''94601'', foodResource 2 ''Kitchen'' ''94612''] exampleCriteria)) \<and>
   list_all (\<lambda>r. \<not> (category r = primaryNeed exampleCriteria \<and> matchesEligibility r exampleCriteria))
     [(foodResource 3 ''Shelter'' ''94601'')\<lparr>category := ''housing''\<rparr>] \<and>
   matchResources codeUnitCompare halves 0
     [(foodResource 3 ''Shelter'' ''94601'')\<lparr>category := ''housing''\<rparr>] exampleCriteria = ([], 0)"
proof -
  have two: "length (fst (matchResources codeUnitCompare halves 0
      [foodResource 1 ''Pantry'' ''94601'', foodResource 2 ''Kitchen'' ''94612''] exampleCriteria)) = 2"
    by code_simp
  have need: "primaryNeed exampleCriteria = ''food''"
    by (simp add: exampleCriteria_def)
  have other: "\<forall>r \<in> set [(foodResource 3 ''Shelter'' ''94601'')\<lparr>category := ''housing''\<rparr>].
      \<not> (category r = primaryNeed exampleCriteria \<and> matchesEligibility r exampleCriteria)"
    by (simp add: exampleCriteria_def foodResource_def)
  from matchResources_bounded_in_category
    [of codeUnitCompare halves 0
      "[foodResource 1 ''Pantry'' ''94601'', foodResource 2 ''Kitchen'' ''94612'']" exampleCriteria]
  have "\<forall>m \<in> set (fst (matchResources codeUnitCompare halves 0
        [foodResource 1 ''Pantry'' ''94601'', foodResource 2 ''Kitchen'' ''94612''] exampleCriteria)).
      category m = primaryNeed exampleCriteria"
    by blast
  then have cat: "list_all (\<lambda>m. category m = ''food'')
     (fst (matchResources codeUnitCompare halves 0
        [foodResource 1 ''Pantry'' ''94601'', foodResource 2 ''Kitchen'' ''94612''] exampleCriteria))"
    by (simp add: list_all_iff need)
  from matchResources_bounded_in_category
    [of codeUnitCompare halves 0
      "[(foodResource 3 ''Shelter'' ''94601'')\<lparr>category := ''housing''\<rparr>]" exampleCriteria] other
  have none: "matchResources codeUnitCompare halves 0
     [(foodResource 3 ''Shelter'' ''94601'')\<lparr>category := ''housing''\<rparr>] exampleCriteria = ([], 0)"
    by blast
  from other have other': "list_all (\<lambda>r. \<not> (category r = primaryNeed exampleCriteria \<and> matchesEligibility r exampleCriteria))
     [(foodResource 3 ''Shelter'' ''94601'')\<lparr>category := ''housing''\<rparr>]"
    by (simp only: list_all_iff)
  from two cat other' none show ?thesis by blast
qed

lemma matchResources_take:
  "fst (matchResources lc rnd k R C) =
     take 5 (arraySort (compareMatches lc)
       (fst (matchesWithDistance rnd k (zip_u C) (prioritizedMatches R C))))"
  by (simp add: matchResources_def split_def Let_def)

lemma sorted_wrt_compareMatches:
  assumes "consistentCollation lc"
  shows "sorted_wrt (\<lambda>a b. compareMatches lc a b \<le> 0) (arraySort (compareMatches lc) ms)"
proof (rule sorted_arraySort)
  show "compareMatches lc b a \<le> 0" if "\<not> compareMatches lc a b \<le> 0" for a b
    using assms that by (rule compareMatches_total)
  show "compareMatches lc a c \<le> 0"
    if "compareMatches lc a b \<le> 0" "compareMatches lc b c \<le> 0" for a b c
    using assms that by (rule compareMatches_trans)
qed

text \<open>
  Claim C2, as the code has it. When the runtime's \<open>localeCompare\<close> is a consistent
  comparison function, the result is the first five entries of the stably sorted list:
  distances never decrease along it, and of two results with the same distance the
  earlier one does not sort after the later one under \<open>localeCompare\<close> (the collation
  of the runtime, which is not the order of the code units); results that the
  comparison does not tell apart keep the order they had before the sort.
\<close>

theorem matchResources_sorted_by_distance_then_collation:
  assumes "consistentCollation lc"
  shows "fst (matchResources lc rnd k R C) =
           take 5 (arraySort (compareMatches lc)
             (fst (matchesWithDistance rnd k (zip_u C) (prioritizedMatches R C)))) \<and>
         sorted (map distance (fst (matchResources lc rnd k R C))) \<and>
         sorted_wrt
           (\<lambda>a b. distance a < distance b \<or>
                  (distance a = distance b \<and> lc (name a) (name b) \<le> 0))
           (fst (matchResources lc rnd k R C)) \<and>
         (\<forall>x. filter (\<lambda>m. compareMatches lc x m = 0)
                (arraySort (compareMatches lc)
                  (fst (matchesWithDistance rnd k (zip_u C) (prioritizedMatches R C)))) =
              filter (\<lambda>m. compareMatches lc x m = 0)
                (fst (matchesWithDistance rnd k (zip_u C) (prioritizedMatches R C))))"
proof -
  let ?ms = "fst (matchesWithDistance rnd k (zip_u C) (prioritizedMatches R C))"
  let ?res = "fst (matchResources lc rnd k R C)"
  have res: "?res = take 5 (arraySort (compareMatches lc) ?ms)"
    by (rule matchResources_take)
  have "sorted_wrt (\<lambda>a b. compareMatches lc a b \<le> 0) (arraySort (compareMatches lc) ?ms)"
    using assms by (rule sorted_wrt_compareMatches)
  then have "sorted_wrt (\<lambda>a b. compareMatches lc a b \<le> 0) ?res"
    unfolding res by (rule sorted_wrt_take)
  then have key: "sorted_wrt
      (\<lambda>a b. distance a < distance b \<or> (distance a = distance b \<and> lc (name a) (name b) \<le> 0))
      ?res"
    by (simp only: compareMatches_le_iff)
  then have "sorted_wrt (\<lambda>a b. distance a \<le> distance b) ?res"
    by (rule sorted_wrt_mono_rel [rotated]) auto
  then have dist: "sorted (map distance ?res)"
    by (simp add: sorted_wrt_map)
  have stable: "filter (\<lambda>m. compareMatches lc x m = 0) (arraySort (compareMatches lc) ?ms) =
      filter (\<lambda>m. compareMatches lc x m = 0) ?ms" for x
  proof (rule filter_arraySort)
    show "sgn (compareMatches lc b a) = - sgn (compareMatches lc a b)" for a b
      using assms by (rule compareMatches_sgn)
    show "compareMatches lc a c \<le> 0"
      if "compareMatches lc a b \<le> 0" "compareMatches lc b c \<le> 0" for a b c
      using assms that by (rule compareMatches_trans)
  qed
  from res dist key stable show ?thesis by blast
qed

theorem matchResources_sorted_by_distance_then_collation_witness:
  "consistentCollation letterCollation \<and>
   map name (fst (matchResources letterCollation halves 0
      [foodResource 1 ''Cafe'' ''94612'', foodResource 2 ''Banana'' ''94601'',
       foodResource 3 ''apple'' ''94601''] exampleCriteria)) = [''apple'', ''Banana'', ''Cafe''] \<and>
   map distance (fst (matchResources letterCollation halves 0
      [foodResource 1 ''Cafe'' ''94612'', foodResource 2 ''Banana'' ''94601'',
       foodResource 3 ''apple'' ''94601''] exampleCriteria)) = [0, 0, 3] \<and>
   sorted (map distance (fst (matchResources letterCollation halves 0
      [foodResource 1 ''Cafe'' ''94612'', foodResource 2 ''Banana'' ''94601'',
       foodResource 3 ''apple'' ''94601''] exampleCriteria)))"
proof -
  have names: "map name (fst (matchResources letterCollation halves 0
      [foodResource 1 ''Cafe'' ''94612'', foodResource 2 ''Banana'' ''94601'',
       foodResource 3 ''apple'' ''94601''] exampleCriteria)) = [''apple'', ''Banana'', ''Cafe'']"
    by code_simp
  have dists: "map distance (fst (matchResources letterCollation halves 0
      [foodResource 1 ''Cafe'' ''94612'', foodResource 2 ''Banana'' ''94601'',
       foodResource 3 ''apple'' ''94601''] exampleCriteria)) = [0, 0, 3]"
    by code_simp
  from matchResources_sorted_by_distance_then_collation [OF letterCollation_consistent,
      of halves 0 "[foodResource 1 ''Cafe'' ''94612'', foodResource 2 ''Banana'' ''94601'',
       foodResource 3 ''apple'' ''94601'']" exampleCriteria]
  have "sorted (map distance (fst (matchResources letterCollation halves 0
      [foodResource 1 ''Cafe'' ''94612'', foodResource 2 ''Banana'' ''94601'',
       foodResource 3 ''apple'' ''94601''] exampleCriteria)))"
    by blast
  with letterCollation_consistent names dists show ?thesis by blast
qed

text \<open>
  Claim C2 as stated fails: under the collation of the runtime two results at the same
  distance come out as \<open>apple\<close>, \<open>Banana\<close>, while in the case-sensitive lexicographic
  order (the order of the code units) \<open>Banana\<close> is before \<open>apple\<close>.
\<close>

theorem matchResources_not_code_unit_order:
  "map name (fst (matchResources letterCollation halves 0
      [foodResource 1 ''Banana'' ''94601'', foodResource 2 ''apple'' ''94601'']
      exampleCriteria)) = [''apple'', ''Banana''] \<and>
   map distance (fst (matchResources letterCollation halves 0
      [foodResource 1 ''Banana'' ''94601'', foodResource 2 ''apple'' ''94601'']
      exampleCriteria)) = [0, 0] \<and>
   (''Banana'' :: string) < ''apple''"
proof -
  have names: "map name (fst (matchResources letterCollation halves 0
      [foodResource 1 ''Banana'' ''94601'', foodResource 2 ''apple'' ''94601'']
      exampleCriteria)) = [''apple'', ''Banana'']"
    by code_simp
  have dists: "map distance (fst (matchResources letterCollation halves 0
      [foodResource 1 ''Banana'' ''94601'', foodResource 2 ''apple'' ''94601'']
      exampleCriteria)) = [0, 0]"
    by code_simp
  have order: "(''Banana'' :: string) < ''apple''"
    by (simp add: less_char_def)
  from names dists order show ?thesis by blast
qed

lemma calculateDistance_tiers:
  assumes "unitInterval rnd"
  shows "(zip1 = zip2 \<longrightarrow> fst (calculateDistance rnd k zip1 zip2) = 0) \<and>
         (zip1 \<noteq> zip2 \<and> substring0 3 zip1 = substring0 3 zip2 \<longrightarrow>
            1 \<le> fst (calculateDistance rnd k zip1 zip2) \<and>
            fst (calculateDistance rnd k zip1 zip2) \<le> 5) \<and>
         (zip1 \<noteq> zip2 \<and> substring0 3 zip1 \<noteq> substring0 3 zip2 \<longrightarrow>
            5 \<le> fst (calculateDistance rnd k zip1 zip2) \<and>
            fst (calculateDistance rnd k zip1 zip2) \<le> 14)"
proof -
  from assms have d: "0 \<le> mantissa (rnd k)" "mantissa (rnd k) < 2 ^ 53"
    and hi: "doubleValue (rnd k) < 1"
    by (simp_all add: unitInterval_def isDouble_def)
  have "0 \<le> doubleValue (multiplyBy 5 (rnd k))"
    using d(1) by (rule multiplyBy_nonneg) simp
  then have f5: "0 \<le> mathFloor (multiplyBy 5 (rnd k))"
    by (simp add: mathFloor_def)
  have "doubleValue (multiplyBy 5 (rnd k)) < of_int 5"
    using d hi by (rule multiplyBy_less [where j = 3]) simp_all
  then have g5: "mathFloor (multiplyBy 5 (rnd k)) < 5"
    by (simp add: mathFloor_def floor_less_iff)
  have "0 \<le> doubleValue (multiplyBy 10 (rnd k))"
    using d(1) by (rule multiplyBy_nonneg) simp
  then have f10: "0 \<le> mathFloor (multiplyBy 10 (rnd k))"
    by (simp add: mathFloor_def)
  have "doubleValue (multiplyBy 10 (rnd k)) < of_int 10"
    using d hi by (rule multiplyBy_less [where j = 4]) simp_all
  then have g10: "mathFloor (multiplyBy 10 (rnd k)) < 10"
    by (simp add: mathFloor_def floor_less_iff)
  from f5 g5 f10 g10 show ?thesis
    by (simp add: calculateDistance_def Let_def)
qed

text \<open>
  Claim C3. With \<open>Math.random()\<close> a double in the unit interval, and its products
  with 5 and 10 rounded as doubles, \<open>calculateDistance\<close> returns a non-negative
  integer: 0 for equal ZIPs, a value from 1 to 5 when the ZIPs differ and their first
  three characters agree, a value from 5 to 14 otherwise; every match result has a
  non-negative distance, and distance 0 when its ZIP is the ZIP of the criteria.
\<close>

theorem calculateDistance_three_tiers:
  assumes "unitInterval rnd"
  shows "0 \<le> fst (calculateDistance rnd k zip1 zip2) \<and>
         (zip1 = zip2 \<longrightarrow> fst (calculateDistance rnd k zip1 zip2) = 0) \<and>
         (zip1 \<noteq> zip2 \<and> substring0 3 zip1 = substring0 3 zip2 \<longrightarrow>
            1 \<le> fst (calculateDistance rnd k zip1 zip2) \<and>
            fst (calculateDistance rnd k zip1 zip2) \<le> 5) \<and>
         (zip1 \<noteq> zip2 \<and> substring0 3 zip1 \<noteq> substring0 3 zip2 \<longrightarrow>
            5 \<le> fst (calculateDistance rnd k zip1 zip2) \<and>
            fst (calculateDistance rnd k zip1 zip2) \<le> 14) \<and>
         (\<forall>m \<in> set (fst (matchResources lc rnd k R C)).
            0 \<le> distance m \<and> (zip_r m = zip_u C \<longrightarrow> distance m = 0))"
proof -
  have tiers: "(z1 = z2 \<longrightarrow> fst (calculateDistance rnd j z1 z2) = 0) \<and>
         (z1 \<noteq> z2 \<and> substring0 3 z1 = substring0 3 z2 \<longrightarrow>
            1 \<le> fst (calculateDistance rnd j z1 z2) \<and> fst (calculateDistance rnd j z1 z2) \<le> 5) \<and>
         (z1 \<noteq> z2 \<and> substring0 3 z1 \<noteq> substring0 3 z2 \<longrightarrow>
            5 \<le> fst (calculateDistance rnd j z1 z2) \<and> fst (calculateDistance rnd j z1 z2) \<le> 14)"
    for j z1 z2
    using assms by (rule calculateDistance_tiers)
  have nonneg: "0 \<le> fst (calculateDistance rnd j z1 z2)" for j z1 z2
    using tiers [of z1 z2 j] by (cases "z1 = z2"; cases "substring0 3 z1 = substring0 3 z2") auto
  have res: "0 \<le> distance m \<and> (zip_r m = zip_u C \<longrightarrow> distance m = 0)"
    if "m \<in> set (fst (matchResources lc rnd k R C))" for m
  proof -
    from that obtain r j where
      m: "m = withDistance r (fst (calculateDistance rnd j (zip_u C) (zip_r r)))"
      using matchResources_elem by blast
    from m nonneg have "0 \<le> distance m" by (simp add: withDistance_sel)
    moreover have "distance m = 0" if "zip_r m = zip_u C"
      using that m by (simp add: withDistance_sel calculateDistance_def)
    ultimately show ?thesis by blast
  qed
  from nonneg tiers [of zip1 zip2 k] res show ?thesis by blast
qed

theorem calculateDistance_three_tiers_witness:
  "unitInterval halves \<and>
   fst (calculateDistance halves 0 ''94601'' ''94601'') = 0 \<and>
   ''94601'' \<noteq> ''94612'' \<and> substring0 3 ''94601'' = substring0 3 ''94612'' \<and>
   1 \<le> fst (calculateDistance halves 0 ''94601'' ''94612'') \<and>
   fst (calculateDistance halves 0 ''94601'' ''94612'') \<le> 5 \<and>
   ''94601'' \<noteq> ''10001'' \<and> substring0 3 ''94601'' \<noteq> substring0 3 ''10001'' \<and>
   5 \<le> fst (calculateDistance halves 0 ''94601'' ''10001'') \<and>
   fst (calculateDistance halves 0 ''94601'' ''10001'') \<le> 14 \<and>
   map zip_r (fst (matchResources codeUnitCompare halves 0
      [foodResource 1 ''Pantry'' ''94601'', foodResource 2 ''Kitchen'' ''94612''] exampleCriteria))
     = [''94601'', ''94612''] \<and>
   list_all (\<lambda>m. 0 \<le> distance m \<and> (zip_r m = zip_u exampleCriteria \<longrightarrow> distance m = 0))
     (fst (matchResources codeUnitCompare halves 0
      [foodResource 1 ''Pantry'' ''94601'', foodResource 2 ''Kitchen'' ''94612''] exampleCriteria)) \<and>
   unitInterval sevenTenths \<and>
   fst (calculateDistance sevenTenths 0 ''94601'' ''10001'') = 12 \<and>
   fst (calculateDistance sevenTenths 0 ''94601'' ''10001'') \<le> 14"
proof -
  have zips: "map zip_r (fst (matchResources codeUnitCompare halves 0
      [foodResource 1 ''Pantry'' ''94601'', foodResource 2 ''Kitchen'' ''94612''] exampleCriteria))
     = [''94601'', ''94612'']"
    by code_simp
  have a: "''94601'' \<noteq> ''94612'' \<and> substring0 3 ''94601'' = substring0 3 ''94612''"
    by (simp add: substring0_def)
  have b: "''94601'' \<noteq> ''10001'' \<and> substring0 3 ''94601'' \<noteq> substring0 3 ''10001''"
    by (simp add: substring0_def)
  note t1 = calculateDistance_three_tiers [OF unitInterval_halves,
      of 0 "''94601''" "''94601''" codeUnitCompare
      "[foodResource 1 ''Pantry'' ''94601'', foodResource 2 ''Kitchen'' ''94612'']" exampleCriteria]
  note t2 = calculateDistance_three_tiers [OF unitInterval_halves,
      of 0 "''94601''" "''94612''" codeUnitCompare "[]" exampleCriteria]
  note t3 = calculateDistance_three_tiers [OF unitInterval_halves,
      of 0 "''94601''" "''10001''" codeUnitCompare "[]" exampleCriteria]
  from t1 have same: "fst (calculateDistance halves 0 ''94601'' ''94601'') = 0" by blast
  from t1 have res: "list_all (\<lambda>m. 0 \<le> distance m \<and> (zip_r m = zip_u exampleCriteria \<longrightarrow> distance m = 0))
     (fst (matchResources codeUnitCompare halves 0
      [foodResource 1 ''Pantry'' ''94601'', foodResource 2 ''Kitchen'' ''94612''] exampleCriteria))"
    unfolding list_all_iff by blast
  from t2 a have near: "1 \<le> fst (calculateDistance halves 0 ''94601'' ''94612'') \<and>
      fst (calculateDistance halves 0 ''94601'' ''94612'') \<le> 5" by blast
  from t3 b have far: "5 \<le> fst (calculateDistance halves 0 ''94601'' ''10001'') \<and>
      fst (calculateDistance halves 0 ''94601'' ''10001'') \<le> 14" by blast
  have twelve: "fst (calculateDistance sevenTenths 0 ''94601'' ''10001'') = 12"
    by code_simp
  from calculateDistance_three_tiers [OF unitInterval_sevenTenths,
      of 0 "''94601''" "''10001''" codeUnitCompare "[]" exampleCriteria] b
  have far7: "fst (calculateDistance sevenTenths 0 ''94601'' ''10001'') \<le> 14" by blast
  from unitInterval_halves same a near b far zips res unitInterval_sevenTenths twelve far7
  show ?thesis by blast
qed

text \<open>
  Claim C4. A resource with no eligibility tags (an absent or empty list) always
  passes. The user tags are exactly: \<open>low_income\<close> for the income brackets \<open>low\<close> and
  \<open>very_low\<close>, \<open>senior\<close> for the age range \<open>65+\<close>, \<open>parent\<close> for a household size above
  1. A resource with tags passes if and only if there are no user tags or the two
  sets of tags meet; user tags \<open>low_income\<close> against resource tags \<open>senior\<close> fail.
\<close>

theorem matchesEligibility_permissive:
  "(eligibilityTags r = None \<or> eligibilityTags r = Some [] \<longrightarrow> matchesEligibility r u) \<and>
   set (userTags u) =
     (if incomeBracket u = ''low'' \<or> incomeBracket u = ''very_low''
      then {''low_income''} else {}) \<union>
     (if ageRange u = ''65+'' then {''senior''} else {}) \<union>
     (if householdSize u > 1 then {''parent''} else {}) \<and>
   (eligibilityTags r = Some tags \<and> tags \<noteq> [] \<longrightarrow>
      (matchesEligibility r u \<longleftrightarrow>
         set (userTags u) = {} \<or> set tags \<inter> set (userTags u) \<noteq> {})) \<and>
   (eligibilityTags r = Some [''senior''] \<and> set (userTags u) = {''low_income''} \<longrightarrow>
      \<not> matchesEligibility r u)"
proof -
  have open_to_all:
    "eligibilityTags r = None \<or> eligibilityTags r = Some [] \<longrightarrow> matchesEligibility r u"
    by (auto simp: matchesEligibility_def)
  have derived: "set (userTags u) =
     (if incomeBracket u = ''low'' \<or> incomeBracket u = ''very_low''
      then {''low_income''} else {}) \<union>
     (if ageRange u = ''65+'' then {''senior''} else {}) \<union>
     (if householdSize u > 1 then {''parent''} else {})"
    by (simp add: userTags_def)
  have tagged: "matchesEligibility r u \<longleftrightarrow>
      set (userTags u) = {} \<or> set ts \<inter> set (userTags u) \<noteq> {}"
    if "eligibilityTags r = Some ts" "ts \<noteq> []" for ts
    using that by (auto simp: matchesEligibility_def list_ex_iff)
  have concrete: "\<not> matchesEligibility r u"
    if "eligibilityTags r = Some [''senior'']" "set (userTags u) = {''low_income''}"
    using that tagged [of "[''senior'']"] by simp
  from open_to_all derived tagged concrete show ?thesis by blast
qed

theorem matchesEligibility_permissive_witness:
  "eligibilityTags (foodResource 1 ''Pantry'' ''94601'') = Some [] \<and>
   matchesEligibility (foodResource 1 ''Pantry'' ''94601'') exampleCriteria \<and>
   eligibilityTags ((foodResource 2 ''Senior Meals'' ''94601'')\<lparr>eligibilityTags := Some [''senior'']\<rparr>)
     = Some [''senior''] \<and>
   set (userTags exampleCriteria) = {''low_income''} \<and>
   \<not> matchesEligibility
       ((foodResource 2 ''Senior Meals'' ''94601'')\<lparr>eligibilityTags := Some [''senior'']\<rparr>)
       exampleCriteria \<and>
   set [''low_income'', ''senior''] \<inter> set (userTags exampleCriteria) \<noteq> {} \<and>
   matchesEligibility
       ((foodResource 3 ''Food Bank'' ''94601'')\<lparr>eligibilityTags := Some [''low_income'', ''senior'']\<rparr>)
       exampleCriteria"
proof -
  let ?open = "foodResource 1 ''Pantry'' ''94601''"
  let ?senior = "(foodResource 2 ''Senior Meals'' ''94601'')\<lparr>eligibilityTags := Some [''senior'']\<rparr>"
  let ?both = "(foodResource 3 ''Food Bank'' ''94601'')\<lparr>eligibilityTags := Some [''low_income'', ''senior'']\<rparr>"
  have t1: "eligibilityTags ?open = Some []" by (simp add: foodResource_def)
  have t2: "eligibilityTags ?senior = Some [''senior'']" by simp
  have t3: "eligibilityTags ?both = Some [''low_income'', ''senior''] \<and> [''low_income'', ''senior''] \<noteq> []"
    by simp
  have u: "set (userTags exampleCriteria) = {''low_income''}"
    by (simp add: userTags_def exampleCriteria_def)
  then have meet: "set [''low_income'', ''senior''] \<inter> set (userTags exampleCriteria) \<noteq> {}"
    by simp
  from matchesEligibility_permissive [of ?open exampleCriteria "[]"] t1
  have p1: "matchesEligibility ?open exampleCriteria" by blast
  from matchesEligibility_permissive [of ?senior exampleCriteria "[]"] t2 u
  have p2: "\<not> matchesEligibility ?senior exampleCriteria" by blast
  from matchesEligibility_permissive [of ?both exampleCriteria "[''low_income'', ''senior'']"] t3 meet
  have p3: "matchesEligibility ?both exampleCriteria" by blast
  from t1 p1 t2 u p2 meet p3 show ?thesis by blast
qed

lemma supportsLanguage_iff:
  "supportsLanguage r lang \<longleftrightarrow>
     languagesSupported r = None \<or> languagesSupported r = Some [] \<or>
     (\<exists>langs. languagesSupported r = Some langs \<and>
        (\<exists>l \<in> set langs. toLowerCase l = toLowerCase lang))"
  by (auto simp: supportsLanguage_def list_ex_iff split: option.splits)

lemma supportsLanguage_case_insensitive:
  "supportsLanguage r (toLowerCase lang) = supportsLanguage r lang"
  unfolding supportsLanguage_def toLowerCase_idem by (rule refl)

text \<open>
  Claim C5. \<open>languageMatches\<close> is the part of the eligibility stage's output that
  supports the preferred language of the criteria (the field \<open>preferredLanguage\<close>, or
  \<open>English\<close> when the field is absent): a resource supports a language when its list
  of languages is absent or empty, or holds a language equal to it up to case. A
  non-empty \<open>languageMatches\<close> becomes the working set and the result is its first
  five after the sort; an empty one leaves the eligibility stage's output as it is, so
  the working set is empty only if that output is, and the result is then the first
  five of that output sorted.
\<close>

theorem language_stage_soft_filter:
  "languageMatches R C =
     filter (\<lambda>r. supportsLanguage r (preferredLanguageOf C)) (matches R C) \<and>
   (supportsLanguage r lang \<longleftrightarrow>
      languagesSupported r = None \<or> languagesSupported r = Some [] \<or>
      (\<exists>langs. languagesSupported r = Some langs \<and>
         (\<exists>l \<in> set langs. toLowerCase l = toLowerCase lang))) \<and>
   supportsLanguage r (toLowerCase lang) = supportsLanguage r lang \<and>
   (languageMatches R C \<noteq> [] \<longrightarrow> prioritizedMatches R C = languageMatches R C) \<and>
   (languageMatches R C = [] \<longrightarrow> prioritizedMatches R C = matches R C) \<and>
   (matches R C \<noteq> [] \<longrightarrow> prioritizedMatches R C \<noteq> []) \<and>
   (languageMatches R C = [] \<longrightarrow>
      fst (matchResources lc rnd k R C) =
        take 5 (arraySort (compareMatches lc)
          (fst (matchesWithDistance rnd k (zip_u C) (matches R C))))) \<and>
   (preferredLanguage C = Some lang \<longrightarrow>
      languageMatches R C = filter (\<lambda>r. supportsLanguage r lang) (matches R C)) \<and>
   (preferredLanguage C = None \<longrightarrow>
      languageMatches R C = filter (\<lambda>r. supportsLanguage r ''English'') (matches R C)) \<and>
   (preferredLanguage C = Some lang \<longrightarrow>
      (\<forall>x. x \<in> set (languageMatches R C) \<longleftrightarrow>
         x \<in> set R \<and> category x = primaryNeed C \<and> matchesEligibility x C \<and>
         (languagesSupported x = None \<or> languagesSupported x = Some [] \<or>
          (\<exists>langs. languagesSupported x = Some langs \<and>
             (\<exists>l \<in> set langs. toLowerCase l = toLowerCase lang))))) \<and>
   (languageMatches R C \<noteq> [] \<longrightarrow>
      fst (matchResources lc rnd k R C) =
        take 5 (arraySort (compareMatches lc)
          (fst (matchesWithDistance rnd k (zip_u C) (languageMatches R C)))))"
proof -
  have stage: "languageMatches R C =
      filter (\<lambda>r. supportsLanguage r (preferredLanguageOf C)) (matches R C)"
    by (simp add: languageMatches_def)
  have some: "prioritizedMatches R C = languageMatches R C" if "languageMatches R C \<noteq> []"
    using that by (simp add: prioritizedMatches_def)
  have none: "prioritizedMatches R C = matches R C" if "languageMatches R C = []"
    using that by (simp add: prioritizedMatches_def)
  have keeps: "prioritizedMatches R C \<noteq> []" if "matches R C \<noteq> []"
    using that some none by (cases "languageMatches R C = []") simp_all
  have final: "fst (matchResources lc rnd k R C) =
        take 5 (arraySort (compareMatches lc)
          (fst (matchesWithDistance rnd k (zip_u C) (matches R C))))"
    if "languageMatches R C = []"
    using none [OF that] by (simp add: matchResources_take)
  have given: "languageMatches R C = filter (\<lambda>r. supportsLanguage r lang) (matches R C)"
    if "preferredLanguage C = Some lang"
    using that by (simp add: languageMatches_def preferredLanguageOf_def)
  have absent: "languageMatches R C = filter (\<lambda>r. supportsLanguage r ''English'') (matches R C)"
    if "preferredLanguage C = None"
    using that by (simp add: languageMatches_def preferredLanguageOf_def)
  have members: "x \<in> set (languageMatches R C) \<longleftrightarrow>
         x \<in> set R \<and> category x = primaryNeed C \<and> matchesEligibility x C \<and>
         (languagesSupported x = None \<or> languagesSupported x = Some [] \<or>
          (\<exists>langs. languagesSupported x = Some langs \<and>
             (\<exists>l \<in> set langs. toLowerCase l = toLowerCase lang)))"
    if "preferredLanguage C = Some lang" for x
    unfolding given [OF that] using supportsLanguage_iff [of x lang]
    by (auto simp: matches_iff)
  have preferred: "fst (matchResources lc rnd k R C) =
        take 5 (arraySort (compareMatches lc)
          (fst (matchesWithDistance rnd k (zip_u C) (languageMatches R C))))"
    if "languageMatches R C \<noteq> []"
    using some [OF that] by (simp add: matchResources_take)
  from stage supportsLanguage_iff [of r lang] supportsLanguage_case_insensitive [of r lang]
    some none keeps final given absent members preferred
  show ?thesis by blast
qed

theorem language_stage_soft_filter_witness:
  "languageMatches
     [(foodResource 1 ''Comedor'' ''94601'')\<lparr>languagesSupported := Some [''Spanish'']\<rparr>]
     exampleCriteria = [] \<and>
   matches
     [(foodResource 1 ''Comedor'' ''94601'')\<lparr>languagesSupported := Some [''Spanish'']\<rparr>]
     exampleCriteria \<noteq> [] \<and>
   prioritizedMatches
     [(foodResource 1 ''Comedor'' ''94601'')\<lparr>languagesSupported := Some [''Spanish'']\<rparr>]
     exampleCriteria =
   [(foodResource 1 ''Comedor'' ''94601'')\<lparr>languagesSupported := Some [''Spanish'']\<rparr>] \<and>
   map name (fst (matchResources codeUnitCompare halves 0
     [(foodResource 1 ''Comedor'' ''94601'')\<lparr>languagesSupported := Some [''Spanish'']\<rparr>]
     exampleCriteria)) = [''Comedor''] \<and>
   languageMatches
     [(foodResource 1 ''Comedor'' ''94601'')\<lparr>languagesSupported := Some [''Spanish'']\<rparr>,
      (foodResource 2 ''Pantry'' ''94601'')\<lparr>languagesSupported := Some [''ENGLISH'']\<rparr>]
     exampleCriteria \<noteq> [] \<and>
   prioritizedMatches
     [(foodResource 1 ''Comedor'' ''94601'')\<lparr>languagesSupported := Some [''Spanish'']\<rparr>,
      (foodResource 2 ''Pantry'' ''94601'')\<lparr>languagesSupported := Some [''ENGLISH'']\<rparr>]
     exampleCriteria =
   [(foodResource 2 ''Pantry'' ''94601'')\<lparr>languagesSupported := Some [''ENGLISH'']\<rparr>] \<and>
   preferredLanguage (exampleCriteria\<lparr>preferredLanguage := Some ''spanish''\<rparr>) = Some ''spanish'' \<and>
   languageMatches
     [(foodResource 1 ''Comedor'' ''94601'')\<lparr>languagesSupported := Some [''Spanish'']\<rparr>,
      (foodResource 2 ''Pantry'' ''94601'')\<lparr>languagesSupported := Some [''ENGLISH'']\<rparr>]
     (exampleCriteria\<lparr>preferredLanguage := Some ''spanish''\<rparr>) =
   [(foodResource 1 ''Comedor'' ''94601'')\<lparr>languagesSupported := Some [''Spanish'']\<rparr>] \<and>
   map name (fst (matchResources codeUnitCompare halves 0
     [(foodResource 1 ''Comedor'' ''94601'')\<lparr>languagesSupported := Some [''Spanish'']\<rparr>,
      (foodResource 2 ''Pantry'' ''94601'')\<lparr>languagesSupported := Some [''ENGLISH'']\<rparr>]
     (exampleCriteria\<lparr>preferredLanguage := Some ''spanish''\<rparr>))) = [''Comedor''] \<and>
   preferredLanguage (exampleCriteria\<lparr>preferredLanguage := None\<rparr>) = None \<and>
   languageMatches
     [(foodResource 1 ''Comedor'' ''94601'')\<lparr>languagesSupported := Some [''Spanish'']\<rparr>,
      (foodResource 2 ''Pantry'' ''94601'')\<lparr>languagesSupported := Some [''ENGLISH'']\<rparr>]
     (exampleCriteria\<lparr>preferredLanguage := None\<rparr>) =
   [(foodResource 2 ''Pantry'' ''94601'')\<lparr>languagesSupported := Some [''ENGLISH'']\<rparr>]"
proof -
  let ?es = "(foodResource 1 ''Comedor'' ''94601'')\<lparr>languagesSupported := Some [''Spanish'']\<rparr>"
  let ?en = "(foodResource 2 ''Pantry'' ''94601'')\<lparr>languagesSupported := Some [''ENGLISH'']\<rparr>"
  let ?spanish = "exampleCriteria\<lparr>preferredLanguage := Some ''spanish''\<rparr>"
  let ?default = "exampleCriteria\<lparr>preferredLanguage := None\<rparr>"
  have m1: "matches [?es] exampleCriteria = [?es]"
    by (simp add: matches_def matchesByCategory_def foodResource_def exampleCriteria_def
        matchesEligibility_def)
  then have m1': "matches [?es] exampleCriteria \<noteq> []" by simp
  have l1: "languageMatches [?es] exampleCriteria = []"
    unfolding languageMatches_def m1 by code_simp
  have l2: "languageMatches [?es, ?en] exampleCriteria = [?en]"
    by code_simp
  then have l2': "languageMatches [?es, ?en] exampleCriteria \<noteq> []" by simp
  from language_stage_soft_filter [of "[?es]" exampleCriteria ?es "''English''" codeUnitCompare halves 0] l1
  have p1: "prioritizedMatches [?es] exampleCriteria = matches [?es] exampleCriteria"
    and f1: "fst (matchResources codeUnitCompare halves 0 [?es] exampleCriteria) =
        take 5 (arraySort (compareMatches codeUnitCompare)
          (fst (matchesWithDistance halves 0 (zip_u exampleCriteria) (matches [?es] exampleCriteria))))"
    by blast+
  from f1 have n1: "map name (fst (matchResources codeUnitCompare halves 0 [?es] exampleCriteria)) = [''Comedor'']"
    unfolding m1
    by (simp add: arraySort_def split_def Let_def withDistance_sel foodResource_def)
  from language_stage_soft_filter [of "[?es, ?en]" exampleCriteria ?es "''English''" codeUnitCompare halves 0] l2'
  have "prioritizedMatches [?es, ?en] exampleCriteria = languageMatches [?es, ?en] exampleCriteria"
    by blast
  with l2 have p2: "prioritizedMatches [?es, ?en] exampleCriteria = [?en]" by simp
  have s0: "preferredLanguage ?spanish = Some ''spanish''" by simp
  have m3: "matches [?es, ?en] ?spanish = [?es, ?en]"
    by (simp add: matches_def matchesByCategory_def foodResource_def exampleCriteria_def
        matchesEligibility_def)
  have sup: "supportsLanguage ?es ''spanish''" "\<not> supportsLanguage ?en ''spanish''"
    by code_simp+
  note th3 = language_stage_soft_filter
    [of "[?es, ?en]" ?spanish ?es "''spanish''" codeUnitCompare halves 0]
  from th3 s0 have "languageMatches [?es, ?en] ?spanish =
      filter (\<lambda>r. supportsLanguage r ''spanish'') (matches [?es, ?en] ?spanish)"
    by blast
  with m3 sup have l3: "languageMatches [?es, ?en] ?spanish = [?es]" by simp
  then have "languageMatches [?es, ?en] ?spanish \<noteq> []" by simp
  with th3 have "fst (matchResources codeUnitCompare halves 0 [?es, ?en] ?spanish) =
        take 5 (arraySort (compareMatches codeUnitCompare)
          (fst (matchesWithDistance halves 0 (zip_u ?spanish) (languageMatches [?es, ?en] ?spanish))))"
    by blast
  then have n3: "map name (fst (matchResources codeUnitCompare halves 0 [?es, ?en] ?spanish)) = [''Comedor'']"
    unfolding l3
    by (simp add: arraySort_def split_def Let_def withDistance_sel foodResource_def)
  have d0: "preferredLanguage ?default = None" by simp
  have m4: "matches [?es, ?en] ?default = [?es, ?en]"
    by (simp add: matches_def matchesByCategory_def foodResource_def exampleCriteria_def
        matchesEligibility_def)
  have sup4: "\<not> supportsLanguage ?es ''English''" "supportsLanguage ?en ''English''"
    by code_simp+
  from language_stage_soft_filter
    [of "[?es, ?en]" ?default ?es "''English''" codeUnitCompare halves 0] d0
  have "languageMatches [?es, ?en] ?default =
      filter (\<lambda>r. supportsLanguage r ''English'') (matches [?es, ?en] ?default)"
    by blast
  with m4 sup4 have l4: "languageMatches [?es, ?en] ?default = [?en]" by simp
  from l1 m1' p1 m1 n1 l2' p2 s0 l3 n3 d0 l4 show ?thesis by simp
qed

section \<open>Properties of the normalizer\<close>

lemma jsOr_JUndefined: "jsOr JUndefined b = b"
  by (simp add: jsOr_def)

lemma optionalProp_falsy: "\<not> truthy v \<Longrightarrow> optionalProp v key = JUndefined"
  by (cases v) (auto simp: optionalProp_def)

lemma mapCategory_Inl_iff: "(\<exists>e. mapCategory v = Inl e) \<longleftrightarrow> truthy v \<and> \<not> isString v"
  by (cases v) (auto simp: mapCategory_def isString_def Let_def)

lemma extractZip_Inl_iff: "(\<exists>e. extractZip v = Inl e) \<longleftrightarrow> truthy v \<and> \<not> isString v"
  by (cases v) (auto simp: extractZip_def isString_def split: option.splits)

lemma alreadyInFormat_not_nullish: "alreadyInFormat r \<Longrightarrow> r \<noteq> JUndefined \<and> r \<noteq> JNull"
  by (auto simp: alreadyInFormat_def)

text \<open>
  Claim C6, as the code has it. A raw record whose \<open>id\<close>, \<open>name\<close> and \<open>category\<close> are
  all truthy (present, and not \<open>null\<close>, \<open>false\<close>, zero or the empty string) is returned
  unchanged, with no random number drawn; normalizing the result again returns it
  unchanged again.
\<close>

theorem normalizeResource_already_in_format:
  assumes "alreadyInFormat resource"
  shows "normalizeResource rnd k resource = (Inr resource, k) \<and>
         (\<forall>out k1. normalizeResource rnd k resource = (Inr out, k1) \<longrightarrow>
            normalizeResource rnd k1 out = (Inr out, k1))"
proof -
  from assms have "resource \<noteq> JUndefined \<and> resource \<noteq> JNull"
    by (rule alreadyInFormat_not_nullish)
  with assms have same: "normalizeResource rnd j resource = (Inr resource, j)" for j
    by (simp add: normalizeResource_def)
  then show ?thesis by simp
qed

theorem normalizeResource_already_in_format_witness:
  "alreadyInFormat canonicalRecord \<and>
   normalizeResource halves 0 canonicalRecord = (Inr canonicalRecord, 0) \<and>
   normalizeResource halves 0 (projr (fst (normalizeResource halves 0 canonicalRecord))) =
     normalizeResource halves 0 canonicalRecord"
proof -
  have c: "alreadyInFormat canonicalRecord"
    by (simp add: alreadyInFormat_def canonicalRecord_def)
  from normalizeResource_already_in_format [OF c, of halves 0]
  have n: "normalizeResource halves 0 canonicalRecord = (Inr canonicalRecord, 0)"
    by blast
  then have "normalizeResource halves 0
      (projr (fst (normalizeResource halves 0 canonicalRecord))) =
     normalizeResource halves 0 canonicalRecord"
    by simp
  with c n show ?thesis by blast
qed

text \<open>
  Claim C6 as stated fails: a record that has the three fields, with the empty string
  for its name, is not returned unchanged but rebuilt with the default name.
\<close>

theorem normalizeResource_rebuilds_empty_name:
  "getProp emptyNameRecord ''id'' = JNum 7 \<and>
   getProp emptyNameRecord ''name'' = JStr [] \<and>
   getProp emptyNameRecord ''category'' = JStr ''food'' \<and>
   fst (normalizeResource halves 0 emptyNameRecord) \<noteq> Inr emptyNameRecord \<and>
   fst (normalizeResource halves 0 emptyNameRecord) =
     Inr (JObj [(''id'', JNum 7),
                (''name'', JStr ''Unknown Resource''),
                (''category'', JStr ''food''),
                (''address'', JStr []),
                (''zip'', JStr []),
                (''hours'', JStr ''Contact for hours''),
                (''phone'', JStr []),
                (''website'', JStr []),
                (''eligibilityNotes'', JStr []),
                (''eligibilityTags'', JArr []),
                (''languagesSupported'', JArr [JStr ''English''])])"
proof -
  have fields: "getProp emptyNameRecord ''id'' = JNum 7 \<and>
      getProp emptyNameRecord ''name'' = JStr [] \<and>
      getProp emptyNameRecord ''category'' = JStr ''food''"
    by (simp add: emptyNameRecord_def)
  have out: "fst (normalizeResource halves 0 emptyNameRecord) =
     Inr (JObj [(''id'', JNum 7),
                (''name'', JStr ''Unknown Resource''),
                (''category'', JStr ''food''),
                (''address'', JStr []),
                (''zip'', JStr []),
                (''hours'', JStr ''Contact for hours''),
                (''phone'', JStr []),
                (''website'', JStr []),
                (''eligibilityNotes'', JStr []),
                (''eligibilityTags'', JArr []),
                (''languagesSupported'', JArr [JStr ''English''])])"
    by code_simp
  then have "fst (normalizeResource halves 0 emptyNameRecord) \<noteq> Inr emptyNameRecord"
    by (simp add: emptyNameRecord_def)
  with fields out show ?thesis by blast
qed

subsection \<open>mapCategory\<close>

lemma lowerChar_not_upper:
  "\<not> (65 \<le> (of_char (lowerChar c) :: nat) \<and> (of_char (lowerChar c) :: nat) \<le> 90)"
proof -
  have "(of_char c :: nat) < 256" by simp
  then show ?thesis
    by (auto simp add: lowerChar_def Let_def)
qed

lemma toLowerCase_no_upper:
  "c \<in> set (toLowerCase s) \<Longrightarrow> \<not> (65 \<le> (of_char c :: nat) \<and> (of_char c :: nat) \<le> 90)"
  using lowerChar_not_upper by (auto simp: toLowerCase_def)

lemma objectPrototypeMethods_upper:
  "key \<in> set objectPrototypeMethods \<Longrightarrow>
     \<exists>c \<in> set key. 65 \<le> (of_char c :: nat) \<and> (of_char c :: nat) \<le> 90"
  by (auto simp: objectPrototypeMethods_def)

lemma toLowerCase_not_method: "toLowerCase s \<notin> set objectPrototypeMethods"
  using objectPrototypeMethods_upper toLowerCase_no_upper by blast

lemma objectPrototype_toLowerCase:
  "objectPrototype (toLowerCase s) =
     (if toLowerCase s = ''constructor'' then JBuiltin ''Object''
      else if toLowerCase s = ''__proto__'' then JBuiltin ''Object.prototype''
      else JUndefined)"
  by (simp add: objectPrototype_def toLowerCase_not_method)

lemma categoryMap_values:
  "map_of categoryMap key = Some v \<Longrightarrow>
     v \<in> {JStr ''food'', JStr ''housing'', JStr ''mental_health'', JStr ''legal'', JStr ''jobs''}"
  by (auto simp: categoryMap_def split: if_splits)

text \<open>
  The synonym table maps its twenty keys to the five categories, whatever the case
  of the input, and \<open>mapCategory\<close> gives the same result for a string and its lower case.
\<close>

lemma mapCategory_examples:
  "mapCategory (JStr ''Food Bank'') = Inr (JStr ''food'')"
  "mapCategory (JStr ''shelter'') = Inr (JStr ''housing'')"
  "mapCategory (JStr ''rental assistance'') = Inr (JStr ''housing'')"
  "mapCategory (JStr ''MEAL'') = Inr (JStr ''food'')"
  "mapCategory (JStr ''Daycare'') = Inr (JStr ''daycare'')"
  by code_simp+

lemma mapCategory_case_insensitive:
  "mapCategory (JStr (toLowerCase s)) = mapCategory (JStr s)"
  by (simp add: mapCategory_def toLowerCase_idem) (simp add: toLowerCase_def)

text \<open>
  Away from the two lower-case names that every object inherits, the result is a
  category of the table or the lower-cased input, a non-empty string in both cases.
\<close>

lemma mapCategory_string:
  assumes "s \<noteq> []" "toLowerCase s \<noteq> ''constructor''" "toLowerCase s \<noteq> ''__proto__''"
  shows "mapCategory (JStr s) =
           Inr (case map_of categoryMap (toLowerCase s) of
                  Some v \<Rightarrow> v
                | None \<Rightarrow> JStr (toLowerCase s))"
    and "\<exists>c. c \<noteq> [] \<and> mapCategory (JStr s) = Inr (JStr c)"
proof -
  from assms(1) have ne: "toLowerCase s \<noteq> []" by (simp add: toLowerCase_def)
  show eq: "mapCategory (JStr s) =
           Inr (case map_of categoryMap (toLowerCase s) of
                  Some v \<Rightarrow> v
                | None \<Rightarrow> JStr (toLowerCase s))"
  proof (cases "map_of categoryMap (toLowerCase s)")
    case None
    with assms show ?thesis
      by (simp add: mapCategory_def objectPrototype_toLowerCase jsOr_JUndefined)
  next
    case (Some v)
    with categoryMap_values have "truthy v" by fastforce
    with Some assms(1) show ?thesis
      by (simp add: mapCategory_def jsOr_def)
  qed
  show "\<exists>c. c \<noteq> [] \<and> mapCategory (JStr s) = Inr (JStr c)"
  proof (cases "map_of categoryMap (toLowerCase s)")
    case None
    with eq ne show ?thesis by simp
  next
    case (Some v)
    with categoryMap_values [OF Some] eq show ?thesis by auto
  qed
qed

text \<open>
  Claim C7 holds for every category string but two kinds: for a string that is
  \<open>constructor\<close> up to case, the lookup in the object literal finds the property that
  every object inherits, and \<open>mapCategory\<close> returns the function \<open>Object\<close> instead of
  the lower-cased string; the normalized record then carries it as its category.
\<close>

theorem mapCategory_constructor_is_not_a_string:
  "mapCategory (JStr ''Constructor'') = Inr (JBuiltin ''Object'') \<and>
   mapCategory (JStr ''__proto__'') = Inr (JBuiltin ''Object.prototype'') \<and>
   getProp (projr (fst (normalizeResource halves 0
      (JObj [(''organization_name'', JStr ''Builders Union''),
             (''service_category'', JStr ''Constructor'')])))) ''category'' = JBuiltin ''Object''"
  by code_simp

subsection \<open>extractZip\<close>

text \<open>
  Where the second regular expression matches, the first one matches too (the hyphen
  after the five digits is a word boundary): the ZIP+4 branch is never reached, and
  \<open>extractZip\<close> of a string is its leftmost five-digit word, or the empty string.
\<close>

lemma zipPlus4At_zip5At:
  "zipPlus4At prevWord s = Some m \<Longrightarrow> zip5At prevWord s = Some (take 5 s)"
  by (auto simp: zipPlus4At_def zip5At_def digitsThenBoundary_def isWordChar_def
      split: if_splits list.splits)

lemma firstMatch_plus4_after_zip5:
  "firstMatch zip5At prevWord s = None \<Longrightarrow> firstMatch zipPlus4At prevWord s = None"
proof (induction s arbitrary: prevWord)
  case Nil
  then show ?case by simp
next
  case (Cons c cs)
  from Cons.prems have z: "zip5At prevWord (c # cs) = None"
    and rest: "firstMatch zip5At (isWordChar c) cs = None"
    by (auto split: option.splits)
  from z zipPlus4At_zip5At [of prevWord "c # cs"] have "zipPlus4At prevWord (c # cs) = None"
    by (cases "zipPlus4At prevWord (c # cs)") auto
  with Cons.IH [OF rest] show ?case by simp
qed

lemma extractZip_string:
  "extractZip (JStr s) =
     Inr (JStr (case firstMatch zip5At False s of Some zipMatch \<Rightarrow> zipMatch | None \<Rightarrow> []))"
proof (cases "firstMatch zip5At False s")
  case None
  then have "firstMatch zipPlus4At False s = None" by (rule firstMatch_plus4_after_zip5)
  with None show ?thesis by (cases s) (simp_all add: extractZip_def)
next
  case (Some m)
  then have "s \<noteq> []" by auto
  with Some show ?thesis by (simp add: extractZip_def)
qed

lemma extractZip_examples:
  "extractZip (JStr ''12 Main St, Oakland, CA 94601-1234'') = Inr (JStr ''94601'')"
  "extractZip (JStr ''Suite 123456, Box 9460'') = Inr (JStr [])"
  "extractZip (JStr ''x94601 a_94602 (94603)'') = Inr (JStr ''94603'')"
  by code_simp+

subsection \<open>normalizeResource\<close>

lemma normalizeResource_returns_iff:
  "(\<exists>out k'. normalizeResource rnd k (JObj kvs) = (Inr out, k')) \<longleftrightarrow>
     alreadyInFormat (JObj kvs) \<or>
     (stringOrFalsy (categoryArgument (JObj kvs)) \<and> stringOrFalsy (zipArgument (JObj kvs)))"
proof (cases "alreadyInFormat (JObj kvs)")
  case True
  then show ?thesis by (simp add: normalizeResource_def)
next
  case False
  have c: "stringOrFalsy (categoryArgument (JObj kvs)) \<longleftrightarrow>
      (\<exists>v. mapCategory (categoryArgument (JObj kvs)) = Inr v)"
    using mapCategory_Inl_iff [of "categoryArgument (JObj kvs)"]
    by (cases "mapCategory (categoryArgument (JObj kvs))") (auto simp: stringOrFalsy_def)
  have z: "stringOrFalsy (zipArgument (JObj kvs)) \<longleftrightarrow>
      (\<exists>v. extractZip (zipArgument (JObj kvs)) = Inr v)"
    using extractZip_Inl_iff [of "zipArgument (JObj kvs)"]
    by (cases "extractZip (zipArgument (JObj kvs))") (auto simp: stringOrFalsy_def)
  from False show ?thesis
    unfolding c z
    by (auto simp: normalizeResource_def Let_def split_def split: sum.splits)
qed

lemma normalizeResource_defaults:
  assumes "\<forall>key \<in> set fieldsRead. \<not> truthy (getProp (JObj kvs) key)"
  shows "normalizeResource rnd k (JObj kvs) = (Inr (defaultRecord (doubleValue (rnd k))), Suc k)"
proof -
  have f: "\<not> truthy (getProp (JObj kvs) key)" if "key \<in> set fieldsRead" for key
    using assms that by blast
  have loc: "optionalProp (getProp (JObj kvs) ''location'') key = JUndefined" for key
    by (rule optionalProp_falsy) (rule f, simp add: fieldsRead_def)
  have j: "jsOr (getProp (JObj kvs) key) b = b" if "key \<in> set fieldsRead" for key b
    using f [OF that] by (simp add: jsOr_def del: getProp.simps)
  have nf: "\<not> alreadyInFormat (JObj kvs)"
    using f [of "''id''"] by (simp add: alreadyInFormat_def fieldsRead_def del: getProp.simps)
  have cat: "categoryArgument (JObj kvs) = getProp (JObj kvs) ''type''"
    by (simp add: categoryArgument_def j fieldsRead_def del: getProp.simps)
  have mc: "mapCategory (categoryArgument (JObj kvs)) = Inr (JStr ''other'')"
    unfolding cat using f [of "''type''"]
    by (simp add: mapCategory_def fieldsRead_def del: getProp.simps)
  have zp: "zipArgument (JObj kvs) = JStr []"
    by (simp add: zipArgument_def j fieldsRead_def loc jsOr_JUndefined del: getProp.simps)
  have ez: "extractZip (zipArgument (JObj kvs)) = Inr (JStr [])"
    unfolding zp by (simp add: extractZip_def)
  have oid: "\<not> truthy (getProp (JObj kvs) ''organization_id'')"
    by (rule f) (simp add: fieldsRead_def)
  show ?thesis
    unfolding normalizeResource_def mc ez defaultRecord_def
    using nf oid
    by (simp add: j fieldsRead_def loc jsOr_JUndefined Let_def del: getProp.simps)
qed

text \<open>
  For instance, the empty record comes back as the default record, and a record of a
  remote catalog in another naming with its fields mapped.
\<close>

lemma normalizeResource_examples:
  "normalizeResource halves 0 (JObj []) = (Inr (defaultRecord (1 / 2)), 1)"
  "normalizeResource halves 0 shelterRecord =
     (Inr (JObj [(''id'', JNum (1 / 2)),
                 (''name'', JStr ''Shelter One''),
                 (''category'', JStr ''housing''),
                 (''address'', JStr ''12 Main St, Oakland, CA 94601-1234''),
                 (''zip'', JStr ''94601''),
                 (''hours'', JStr ''Contact for hours''),
                 (''phone'', JStr []),
                 (''website'', JStr []),
                 (''eligibilityNotes'', JStr []),
                 (''eligibilityTags'', JArr []),
                 (''languagesSupported'', JArr [JStr ''English''])]), 1)"
  by code_simp+

text \<open>
  Claim C8 holds where the values handed to \<open>mapCategory\<close> and \<open>extractZip\<close> are
  strings or missing (\<open>normalizeResource_returns_iff\<close>), and the defaults are the ones
  it names (\<open>normalizeResource_defaults\<close>). It fails on the code for a raw record whose
  ZIP code or category is a JSON number: \<open>extractZip\<close> calls \<open>text.match\<close> and
  \<open>mapCategory\<close> calls \<open>category.toLowerCase\<close> on the number, and \<open>normalizeResource\<close>
  throws a \<open>TypeError\<close> (after the random \<open>id\<close> was drawn), while a number in a
  sibling field such as \<open>phone\<close> is kept and a record returned.
\<close>

theorem normalizeResource_throws_on_numeric_zip:
  "normalizeResource halves 0 numericZipRecord = (Inl TypeError, 1) \<and>
   normalizeResource halves 0
     (JObj [(''organization_name'', JStr ''Food Pantry''), (''type'', JNum 3)]) =
     (Inl TypeError, 1) \<and>
   getProp (projr (fst (normalizeResource halves 0
     (JObj [(''organization_name'', JStr ''Food Pantry''), (''phone'', JNum 5101234567)]))))
     ''phone'' = JNum 5101234567"
  by code_simp

lemma stringArrayField_English:
  "stringArrayField (JArr [JStr ''English'']) field \<longleftrightarrow> field = Some [''English'']"
  by (cases field) (auto simp: stringArrayField_def)

lemma supportsLanguage_English_only:
  assumes "languagesSupported res = Some [''English'']"
  shows "supportsLanguage res lang \<longleftrightarrow> toLowerCase lang = ''english''"
proof -
  have "toLowerCase ''English'' = ''english''" by code_simp
  with assms show ?thesis by (auto simp: supportsLanguage_def)
qed

text \<open>
  When \<open>normalizeResource\<close> rebuilds a raw record (one not already in the format) in
  which the three language fields are absent (or hold any falsy value) and returns a
  record, that record has \<open>languagesSupported\<close> equal to \<open>['English']\<close>, not the empty
  array; a resource with that list of languages passes \<open>supportsLanguage\<close> for
  English (in any case) and for no other language.
\<close>

lemma normalizeResource_languages_default_English:
  assumes "\<not> alreadyInFormat (JObj kvs)"
    and "\<not> truthy (getProp (JObj kvs) ''languagesSupported'')"
    and "\<not> truthy (getProp (JObj kvs) ''languages_supported'')"
    and "\<not> truthy (getProp (JObj kvs) ''languages'')"
    and "normalizeResource rnd k (JObj kvs) = (Inr out, k')"
  shows "getProp out ''languagesSupported'' = JArr [JStr ''English''] \<and>
         getProp out ''languagesSupported'' \<noteq> JArr [] \<and>
         (\<forall>res. stringArrayField (getProp out ''languagesSupported'') (languagesSupported res) \<longrightarrow>
            (supportsLanguage res lang \<longleftrightarrow> toLowerCase lang = ''english''))"
proof -
  have langs: "jsOr (jsOr (jsOr (getProp (JObj kvs) ''languagesSupported'')
                         (getProp (JObj kvs) ''languages_supported''))
                   (getProp (JObj kvs) ''languages''))
             (JArr [JStr ''English'']) = JArr [JStr ''English'']"
    using assms(2-4) by (simp add: jsOr_def del: getProp.simps)
  from assms(1,5) have "getProp out ''languagesSupported'' =
      jsOr (jsOr (jsOr (getProp (JObj kvs) ''languagesSupported'')
                         (getProp (JObj kvs) ''languages_supported''))
                   (getProp (JObj kvs) ''languages''))
             (JArr [JStr ''English''])"
    by (auto simp: normalizeResource_def Let_def split_def simp del: getProp.simps
        split: sum.splits if_splits) (simp_all)
  with langs have out: "getProp out ''languagesSupported'' = JArr [JStr ''English'']"
    by simp
  have "supportsLanguage res lang \<longleftrightarrow> toLowerCase lang = ''english''"
    if "stringArrayField (getProp out ''languagesSupported'') (languagesSupported res)" for res
    using that unfolding out stringArrayField_English
    by (rule supportsLanguage_English_only)
  with out show ?thesis by simp
qed

lemma normalizeResource_languages_default_English_example:
  "\<not> alreadyInFormat shelterRecord"
  "getProp shelterRecord ''languagesSupported'' = JUndefined"
  "getProp shelterRecord ''languages_supported'' = JUndefined"
  "getProp shelterRecord ''languages'' = JUndefined"
  "getProp (projr (fst (normalizeResource halves 0 shelterRecord))) ''languagesSupported'' =
     JArr [JStr ''English'']"
  "supportsLanguage ((foodResource 1 ''Shelter One'' ''94601'')\<lparr>languagesSupported := Some [''English'']\<rparr>)
     ''ENGLISH''"
  "\<not> supportsLanguage ((foodResource 1 ''Shelter One'' ''94601'')\<lparr>languagesSupported := Some [''English'']\<rparr>)
     ''Spanish''"
  by code_simp+

text \<open>
  Claim C10 holds wherever \<open>normalizeResource\<close> returns a record
  (\<open>normalizeResource_languages_default_English\<close>). It fails on the code for the
  records on which \<open>normalizeResource\<close> throws: the record with a numeric ZIP code is
  not in the format and has none of the three language fields, and no record with
  \<open>languagesSupported\<close> comes back for it, only the \<open>TypeError\<close>.
\<close>

theorem normalizeResource_no_languages_on_numeric_zip:
  "\<not> alreadyInFormat numericZipRecord \<and>
   getProp numericZipRecord ''languagesSupported'' = JUndefined \<and>
   getProp numericZipRecord ''languages_supported'' = JUndefined \<and>
   getProp numericZipRecord ''languages'' = JUndefined \<and>
   fst (normalizeResource halves 0 numericZipRecord) = Inl TypeError"
  by code_simp

section \<open>Properties of the catalog cache\<close>

lemma cachedResources_Some_iff:
  "cachedResources env c = Some d \<longleftrightarrow>
     data c = Some d \<and> (\<exists>t. timestamp c = Some t \<and> t \<noteq> 0 \<and> dateNow env - t < ttl c)"
  by (auto simp: cachedResources_def split: option.splits)

lemma cachedResources_cleared:
  "cachedResources env (c\<lparr>data := None, timestamp := None\<rparr>) = None"
  by (simp add: cachedResources_def)

lemma getAllResources_hit:
  assumes "data (cache st) = Some d" "timestamp (cache st) = Some t" "t \<noteq> 0"
    and "dateNow env - t < ttl (cache st)"
  shows "getAllResources env st = (Inr d, st)"
proof -
  from assms have "cachedResources env (cache st) = Some d"
    by (simp add: cachedResources_Some_iff)
  then show ?thesis by (simp add: getAllResources_def)
qed

text \<open>The \<open>switch\<close> throws only on the branch for \<open>api\<close>, and always calls a loader otherwise.\<close>

lemma switchDataSource_Inl:
  assumes "switchDataSource env = (Inl err, calls)"
  shows "toLowerCase (dataSourceOf env) = ''api''"
  using assms by (auto simp: switchDataSource_def split: if_splits option.splits)

lemma switchDataSource_Inr:
  assumes "switchDataSource env = (Inr resources, calls)"
  shows "calls \<noteq> []"
  using assms by (auto simp: switchDataSource_def split: if_splits option.splits)

lemma json_is_not_api: "dataSourceOf env = ''json'' \<Longrightarrow> toLowerCase (dataSourceOf env) \<noteq> ''api''"
proof -
  have "toLowerCase ''json'' \<noteq> ''api''" by code_simp
  then show "dataSourceOf env = ''json'' \<Longrightarrow> toLowerCase (dataSourceOf env) \<noteq> ''api''"
    by simp
qed

text \<open>A read that misses the cache calls a loader, stores what it got, and returns it.\<close>

lemma getAllResources_miss:
  assumes "cachedResources env (cache st) = None"
  shows "\<exists>r calls. calls \<noteq> [] \<and>
           getAllResources env st =
             (Inr r, \<lparr>cache = \<lparr>data = Some r, timestamp = Some (dateNowAfterLoad env),
                                ttl = ttl (cache st)\<rparr>,
                      loaderCalls = loaderCalls st @ calls\<rparr>)"
proof (cases "switchDataSource env")
  case (Pair outcome calls)
  show ?thesis
  proof (cases outcome)
    case (Inl err)
    with Pair have "toLowerCase (dataSourceOf env) = ''api''"
      by (simp add: switchDataSource_Inl)
    with json_is_not_api have "dataSourceOf env \<noteq> ''json''" by blast
    with assms Pair Inl have "getAllResources env st =
        (Inr (loadFromJSON env),
         \<lparr>cache = \<lparr>data = Some (loadFromJSON env), timestamp = Some (dateNowAfterLoad env),
                    ttl = ttl (cache st)\<rparr>,
          loaderCalls = loaderCalls st @ (calls @ [LoadFromJSON])\<rparr>)"
      by (simp add: getAllResources_def store_def)
    moreover have "calls @ [LoadFromJSON] \<noteq> []" by simp
    ultimately show ?thesis by blast
  next
    case (Inr resources)
    with Pair have ne: "calls \<noteq> []" by (simp add: switchDataSource_Inr)
    show ?thesis
    proof (cases "length resources = 0 \<and> dataSourceOf env \<noteq> ''json''")
      case True
      with assms Pair Inr have "getAllResources env st =
          (Inr (loadFromJSON env),
           \<lparr>cache = \<lparr>data = Some (loadFromJSON env), timestamp = Some (dateNowAfterLoad env),
                      ttl = ttl (cache st)\<rparr>,
            loaderCalls = loaderCalls st @ (calls @ [LoadFromJSON])\<rparr>)"
        by (simp add: getAllResources_def store_def)
      moreover have "calls @ [LoadFromJSON] \<noteq> []" by simp
      ultimately show ?thesis by blast
    next
      case False
      with assms Pair Inr have "getAllResources env st =
          (Inr resources,
           \<lparr>cache = \<lparr>data = Some resources, timestamp = Some (dateNowAfterLoad env),
                      ttl = ttl (cache st)\<rparr>,
            loaderCalls = loaderCalls st @ calls\<rparr>)"
        by (auto simp add: getAllResources_def store_def)
      with ne show ?thesis by blast
    qed
  qed
qed

lemma getAllResources_result_cached:
  assumes "getAllResources env st = (Inr d, st1)"
  shows "data (cache st1) = Some d \<and> ttl (cache st1) = ttl (cache st) \<and>
         (\<exists>t. timestamp (cache st1) = Some t)"
proof (cases "cachedResources env (cache st)")
  case None
  from getAllResources_miss [OF None] assms show ?thesis by auto
next
  case (Some c)
  with assms have "d = c" "st1 = st" by (simp_all add: getAllResources_def)
  with Some show ?thesis by (auto simp: cachedResources_Some_iff)
qed

text \<open>
  Claim C9. The time to live is one hour. A read when the cache holds data and a
  timestamp less than the time to live before \<open>Date.now()\<close> returns the cached data
  and changes nothing: the cache stays as it is and no loader is called. After any
  read that returned a catalog, the cache holds that catalog, so a second read within
  the time to live of the stored timestamp returns the same catalog, again without a
  loader call. \<open>refreshResources\<close> clears data and timestamp whatever they were and
  reads: that read always calls a loader, stores and returns what was loaded. (The
  timestamp is a reading of \<open>Date.now()\<close>, which is zero only at the epoch; the code
  takes a zero timestamp for a missing one.)
\<close>

theorem cache_read_within_ttl_and_refresh:
  "ttl initialCache = 3600000 \<and>
   (data (cache st) = Some d \<and> timestamp (cache st) = Some t \<and> t \<noteq> 0 \<and>
    dateNow env - t < ttl (cache st) \<longrightarrow>
      getAllResources env st = (Inr d, st)) \<and>
   (getAllResources env st = (Inr d, st1) \<longrightarrow>
      data (cache st1) = Some d \<and> ttl (cache st1) = ttl (cache st) \<and>
      (\<exists>t. timestamp (cache st1) = Some t)) \<and>
   (getAllResources env st = (Inr d, st1) \<and> timestamp (cache st1) = Some t \<and> t \<noteq> 0 \<and>
    dateNow env2 - t < ttl (cache st1) \<longrightarrow>
      getAllResources env2 st1 = (Inr d, st1)) \<and>
   refreshResources env st =
     getAllResources env (st\<lparr>cache := (cache st)\<lparr>data := None, timestamp := None\<rparr>\<rparr>) \<and>
   (\<exists>r calls. calls \<noteq> [] \<and>
      refreshResources env st =
        (Inr r, \<lparr>cache = \<lparr>data = Some r, timestamp = Some (dateNowAfterLoad env),
                           ttl = ttl (cache st)\<rparr>,
                 loaderCalls = loaderCalls st @ calls\<rparr>))"
proof -
  have hour: "ttl initialCache = 3600000"
    by (simp add: initialCache_def)
  have hit: "getAllResources env st = (Inr d, st)"
    if "data (cache st) = Some d" "timestamp (cache st) = Some t" "t \<noteq> 0"
      "dateNow env - t < ttl (cache st)"
    using that by (rule getAllResources_hit)
  have kept: "data (cache st1) = Some d \<and> ttl (cache st1) = ttl (cache st) \<and>
      (\<exists>t. timestamp (cache st1) = Some t)"
    if "getAllResources env st = (Inr d, st1)"
    using that by (rule getAllResources_result_cached)
  have again: "getAllResources env2 st1 = (Inr d, st1)"
    if "getAllResources env st = (Inr d, st1)" "timestamp (cache st1) = Some t" "t \<noteq> 0"
      "dateNow env2 - t < ttl (cache st1)"
  proof -
    from that(1) have "data (cache st1) = Some d"
      using getAllResources_result_cached by blast
    then show ?thesis using that(2-4) by (rule getAllResources_hit)
  qed
  have clears: "refreshResources env st =
      getAllResources env (st\<lparr>cache := (cache st)\<lparr>data := None, timestamp := None\<rparr>\<rparr>)"
    by (simp add: refreshResources_def)
  have reload: "\<exists>r calls. calls \<noteq> [] \<and>
      refreshResources env st =
        (Inr r, \<lparr>cache = \<lparr>data = Some r, timestamp = Some (dateNowAfterLoad env),
                           ttl = ttl (cache st)\<rparr>,
                 loaderCalls = loaderCalls st @ calls\<rparr>)"
  proof -
    let ?st = "st\<lparr>cache := (cache st)\<lparr>data := None, timestamp := None\<rparr>\<rparr>"
    have "cachedResources env (cache ?st) = None"
      by (simp add: cachedResources_cleared)
    from getAllResources_miss [OF this] show ?thesis
      by (simp add: refreshResources_def)
  qed
  from hour hit kept again clears reload show ?thesis by blast
qed

theorem cache_read_within_ttl_and_refresh_witness:
  "data (cache filledService) = Some [canonicalRecord] \<and>
   timestamp (cache filledService) = Some 1000 \<and>
   dateNow laterRead - 1000 < ttl (cache filledService) \<and>
   getAllResources laterRead filledService = (Inr [canonicalRecord], filledService) \<and>
   getAllResources (laterRead\<lparr>dateNow := 3000000\<rparr>)
     (snd (getAllResources laterRead filledService)) = (Inr [canonicalRecord], filledService) \<and>
   refreshResources laterRead filledService =
     (Inr [canonicalRecord, defaultRecord (1 / 2)],
      \<lparr>cache = \<lparr>data = Some [canonicalRecord, defaultRecord (1 / 2)],
                 timestamp = Some 61005, ttl = 3600000\<rparr>,
       loaderCalls = [LoadFromJSON, LoadFromJSON]\<rparr>)"
proof -
  have d: "data (cache filledService) = Some [canonicalRecord]"
    and t: "timestamp (cache filledService) = Some 1000"
    and w: "dateNow laterRead - 1000 < ttl (cache filledService)"
    and w2: "dateNow (laterRead\<lparr>dateNow := 3000000\<rparr>) - 1000 < ttl (cache filledService)"
    by (simp_all add: filledService_def laterRead_def)
  note th = cache_read_within_ttl_and_refresh
    [of filledService "[canonicalRecord]" 1000 laterRead filledService
      "laterRead\<lparr>dateNow := 3000000\<rparr>"]
  from th d t w have first: "getAllResources laterRead filledService = (Inr [canonicalRecord], filledService)"
    by simp
  with th t w2 have "getAllResources (laterRead\<lparr>dateNow := 3000000\<rparr>) filledService =
      (Inr [canonicalRecord], filledService)"
    by simp
  with first have second: "getAllResources (laterRead\<lparr>dateNow := 3000000\<rparr>)
     (snd (getAllResources laterRead filledService)) = (Inr [canonicalRecord], filledService)"
    by simp
  have refresh: "refreshResources laterRead filledService =
     (Inr [canonicalRecord, defaultRecord (1 / 2)],
      \<lparr>cache = \<lparr>data = Some [canonicalRecord, defaultRecord (1 / 2)],
                 timestamp = Some 61005, ttl = 3600000\<rparr>,
       loaderCalls = [LoadFromJSON, LoadFromJSON]\<rparr>)"
    by (simp add: refreshResources_def getAllResources_def cachedResources_def
        switchDataSource_def dataSourceOf_def store_def filledService_def laterRead_def
        toLowerCase_def lowerChar_def)
  from d t w first second refresh show ?thesis by blast
qed

end
